theory Spec2Isabelle
  imports Main
begin

section \<open>Data of pkg/bugzilla/bugzilla.go\<close>

text \<open>
  The struct \<open>pr\<close> of the source (lines 38-42), and the types of the packages the file
  imports, each with the fields the code reads or writes. Go's \<open>int\<close> is modelled as
  \<open>int\<close>: the code does no arithmetic on bug or pull numbers, it compares and prints them.
\<close>

record pr =
  org :: string
  repo :: string
  prNum :: int

record User =
  Name :: string

record Bug =
  ID :: int
  Status :: string
  TargetRelease :: "string list"
  QAContactDetail :: "User option"

record ExternalBug =
  Type_URL :: string
  Org :: string
  Repo :: string
  Num :: int

record Comment =
  Text :: string
  Creator :: string

record CommentCreate =
  CommentCreate_ID :: int
  CommentCreate_Comment :: string
  IsPrivate :: bool

record BugUpdate =
  BugUpdate_Status :: string

record Label =
  Label_Name :: string

text \<open>
  The two clients are Go interfaces implemented outside this file. A client is a record
  of its methods; a method that returns \<open>(value, error)\<close> returns a sum, \<open>Inl\<close> the
  error. The answers are functions of the arguments: the tracker and the code host are
  taken not to change under the reads of one run. \<open>'e\<close> is the type of the errors of the
  clients. The field \<open>pluginConfig\<close> of \<open>Verifier\<close> is never read and is left out.
\<close>

record 'e bzClient =
  GetBug :: "int \<Rightarrow> 'e + Bug"
  GetExternalBugPRsOnBug :: "int \<Rightarrow> 'e + ExternalBug list"
  GetComments :: "int \<Rightarrow> 'e + Comment list"
  CreateComment :: "CommentCreate \<Rightarrow> 'e + int"
  UpdateBug :: "int \<Rightarrow> BugUpdate \<Rightarrow> 'e option"

record 'e ghClient =
  GetIssueLabels :: "string \<Rightarrow> string \<Rightarrow> int \<Rightarrow> 'e + Label list"

record 'e Verifier =
  bzClient :: "'e bzClient"
  ghClient :: "'e ghClient"

text \<open>
  Functions of other packages that the code calls, taken as parameters:
  \<open>releasecontroller.SemverParseTolerant\<close>, \<open>releasecontroller.SemverToMajorMinor\<close>,
  \<open>bugzilla.IsAccessDenied\<close>, the method \<open>Error()\<close> that the verbs \<open>%v\<close>, \<open>%w\<close> and
  \<open>%s\<close> print, and the order in which Go's \<open>range\<close> visits the entries of the map
  \<open>bzPRs\<close> (unspecified by the language).
\<close>

record ('e, 'v) pkgs =
  SemverParseTolerant :: "string \<Rightarrow> 'e + 'v"
  SemverToMajorMinor :: "'v \<Rightarrow> string"
  IsAccessDenied :: "'e \<Rightarrow> bool"
  Error :: "'e \<Rightarrow> string"
  rangeMap :: "(int \<rightharpoonup> pr list) \<Rightarrow> (int \<times> pr list) list"

text \<open>
  What a run does to the outside is the list of calls it issues to the two clients, in
  order. A run carries the error list \<open>errs\<close> of the source (an error is its message)
  and that list of calls.
\<close>

datatype call =
  GetExternalBugPRsOnBug_call int
| GetBug_call int
| GetIssueLabels_call string string int
| GetComments_call int
| CreateComment_call CommentCreate
| UpdateBug_call int BugUpdate

record run =
  errs :: "string list"
  calls :: "call list"

definition issue :: "call \<Rightarrow> run \<Rightarrow> run" where
  "issue k s = s\<lparr>calls := calls s @ [k]\<rparr>"

definition addErr :: "string \<Rightarrow> run \<Rightarrow> run" where
  "addErr e s = s\<lparr>errs := errs s @ [e]\<rparr>"

section \<open>Formatting and splitting\<close>

text \<open>The verb \<open>%d\<close> of \<open>fmt\<close> on an \<open>int\<close>: decimal digits, a minus sign when negative.\<close>

definition digit :: "nat \<Rightarrow> char" where
  "digit n = ''0123456789'' ! n"

function decimal :: "nat \<Rightarrow> string" where
  "decimal n = (if n < 10 then [digit n] else decimal (n div 10) @ [digit (n mod 10)])"
  by pat_completeness auto
termination
  by (relation "measure (\<lambda>n. n)") auto

declare decimal.simps [simp del]

definition fmt_d :: "int \<Rightarrow> string" where
  "fmt_d i = (if i < 0 then CHR ''-'' # decimal (nat (- i)) else decimal (nat i))"

text \<open>
  \<open>strings.Split(s, sep)\<close> for a separator of one character: the pieces of \<open>s\<close> between
  the separators, one more than there are separators.
\<close>

fun strings_Split :: "string \<Rightarrow> char \<Rightarrow> string list" where
  "strings_Split [] sep = [[]]"
| "strings_Split (x # xs) sep =
     (if x = sep then [] # strings_Split xs sep
      else (case strings_Split xs sep of
              [] \<Rightarrow> [[x]]
            | w # ws \<Rightarrow> (x # w) # ws))"

section \<open>getPRs (lines 160-191)\<close>

text \<open>Lines 175-184: the links of one bug hosted on the code host are appended to its entry.\<close>

fun getPRs_links :: "int \<Rightarrow> ExternalBug list \<Rightarrow> (int \<rightharpoonup> pr list) \<Rightarrow> (int \<rightharpoonup> pr list)" where
  "getPRs_links bzID [] bzPRs = bzPRs"
| "getPRs_links bzID (extBug # extBugs) bzPRs =
     getPRs_links bzID extBugs
       (if Type_URL extBug = ''https://github.com/'' then
          (case bzPRs bzID of
             Some existingPRs \<Rightarrow>
               bzPRs(bzID \<mapsto> existingPRs @ [\<lparr>org = Org extBug, repo = Repo extBug, prNum = Num extBug\<rparr>])
           | None \<Rightarrow>
               bzPRs(bzID \<mapsto> [\<lparr>org = Org extBug, repo = Repo extBug, prNum = Num extBug\<rparr>]))
        else bzPRs)"

text \<open>Lines 163-189: the loop over the input. \<open>foundPR\<close> only decides a log line.\<close>

fun getPRs_loop ::
  "'e bzClient \<Rightarrow> ('e, 'v) pkgs \<Rightarrow> int list \<Rightarrow> (int \<rightharpoonup> pr list) \<times> run \<Rightarrow> (int \<rightharpoonup> pr list) \<times> run" where
  "getPRs_loop bz p [] (bzPRs, s) = (bzPRs, s)"
| "getPRs_loop bz p (bzID # input) (bzPRs, s) =
     (let s = issue (GetExternalBugPRsOnBug_call bzID) s in
      case GetExternalBugPRsOnBug bz bzID of
        Inl err \<Rightarrow>
          if IsAccessDenied p err then getPRs_loop bz p input (bzPRs, s)
          else getPRs_loop bz p input
                 (bzPRs, addErr (''Failed to get external bugs for bugzilla bug '' @ fmt_d bzID
                                   @ '': '' @ Error p err) s)
      | Inr extBugs \<Rightarrow> getPRs_loop bz p input (getPRs_links bzID extBugs bzPRs, s))"

definition getPRs :: "int list \<Rightarrow> 'e bzClient \<Rightarrow> ('e, 'v) pkgs \<Rightarrow> (int \<rightharpoonup> pr list) \<times> run" where
  "getPRs input bz p = getPRs_loop bz p input (Map.empty, \<lparr>errs = [], calls = []\<rparr>)"

section \<open>VerifyBugs (lines 46-156)\<close>

text \<open>Lines 96-102: does the list of labels hold the approval label.\<close>

fun hasLabel :: "Label list \<Rightarrow> bool" where
  "hasLabel [] = False"
| "hasLabel (label # labels) =
     (if Label_Name label = ''qe-approved'' then True else hasLabel labels)"

text \<open>
  Lines 89-106: the loop over the linked pull requests of a bug in \<open>ON_QA\<close>. A failed
  fetch leaves \<open>labels\<close> empty (the \<open>nil\<close> slice that comes with an error).
\<close>

definition labelErr :: "('e, 'v) pkgs \<Rightarrow> pr \<Rightarrow> 'e \<Rightarrow> string" where
  "labelErr p extPR err =
     ''Unable to get labels for github pull '' @ org extPR @ ''/'' @ repo extPR @ ''#''
       @ fmt_d (prNum extPR) @ '': '' @ Error p err"

fun checkPRs ::
  "'e Verifier \<Rightarrow> ('e, 'v) pkgs \<Rightarrow> pr list \<Rightarrow> pr list \<times> string list \<times> run
     \<Rightarrow> pr list \<times> string list \<times> run" where
  "checkPRs c p [] (unlabeledPRs, bugErrs, s) = (unlabeledPRs, bugErrs, s)"
| "checkPRs c p (extPR # extPRs) (unlabeledPRs, bugErrs, s) =
     (let s = issue (GetIssueLabels_call (org extPR) (repo extPR) (prNum extPR)) s;
          r = GetIssueLabels (ghClient c) (org extPR) (repo extPR) (prNum extPR);
          s = (case r of Inl err \<Rightarrow> addErr (labelErr p extPR err) s | Inr _ \<Rightarrow> s);
          bugErrs = (case r of Inl err \<Rightarrow> bugErrs @ [labelErr p extPR err] | Inr _ \<Rightarrow> bugErrs);
          labels = (case r of Inl _ \<Rightarrow> [] | Inr ls \<Rightarrow> ls)
      in checkPRs c p extPRs
           (if \<not> hasLabel labels then unlabeledPRs @ [extPR] else unlabeledPRs, bugErrs, s))"

text \<open>Line 111 and line 114: what one pull request and one reason add to the message.\<close>

definition notApprovedLine :: "pr \<Rightarrow> string" where
  "notApprovedLine extPR =
     ''\<newline>- PR '' @ org extPR @ ''/'' @ repo extPR @ ''#'' @ fmt_d (prNum extPR)
       @ '' not approved by QA contact''"

definition reasonLine :: "string \<Rightarrow> string" where
  "reasonLine err = ''\<newline>- '' @ err"

text \<open>Lines 77 and 108-126: the message and the outcome \<open>success\<close>.\<close>

definition composeMessage :: "string \<Rightarrow> Bug \<Rightarrow> pr list \<Rightarrow> string list \<Rightarrow> bool \<times> string" where
  "composeMessage tagName bug unlabeledPRs bugErrs =
     (let message = ''Bugfix included in accepted release '' @ tagName;
          (success, message) =
            (if length unlabeledPRs > 0 \<or> length bugErrs > 0 then
               let message = message
                     @ ''\<newline>Bug will not be automatically moved to VERIFIED for the following reasons:'';
                   message = foldl (\<lambda>message extPR. message @ notApprovedLine extPR)
                               message unlabeledPRs;
                   message = foldl (\<lambda>message err. message @ reasonLine err) message bugErrs;
                   message = message @ ''\<newline>\<newline>This bug must now be manually moved to VERIFIED'';
                   message = (case QAContactDetail bug of
                                None \<Rightarrow> message
                              | Some detail \<Rightarrow> message @ '' by '' @ Name detail)
               in (False, message)
             else (True, message))
      in (success,
          if success then
            message @ ''\<newline>All linked GitHub PRs have been approved by a QA contact; updating bug status to VERIFIED''
          else message))"

text \<open>
  Lines 76-126: status evaluation and message. \<open>None\<close> is the \<open>continue\<close> of line 84
  (the bug is already \<open>VERIFIED\<close>); otherwise the outcome \<open>success\<close>, the message and
  the run.
\<close>

definition decide ::
  "'e Verifier \<Rightarrow> ('e, 'v) pkgs \<Rightarrow> string \<Rightarrow> Bug \<Rightarrow> pr list \<Rightarrow> run \<Rightarrow> (bool \<times> string) option \<times> run" where
  "decide c p tagName bug extPRs s =
     (if Status bug \<noteq> ''ON_QA'' then
        (if Status bug = ''VERIFIED'' then (None, s)
         else (Some (composeMessage tagName bug [] [''Bug is not in ON_QA status'']), s))
      else
        (case checkPRs c p extPRs ([], [], s) of
           (unlabeledPRs, bugErrs, s) \<Rightarrow> (Some (composeMessage tagName bug unlabeledPRs bugErrs), s)))"

text \<open>Lines 133-139: is the message already a comment of the robot.\<close>

fun alreadyCommented :: "Comment list \<Rightarrow> string \<Rightarrow> bool" where
  "alreadyCommented [] message = False"
| "alreadyCommented (comment # comments) message =
     (if Text comment = message
         \<and> (Creator comment = ''openshift-bugzilla-robot''
            \<or> Creator comment = ''openshift-bugzilla-robot@redhat.com'')
      then True else alreadyCommented comments message)"

text \<open>
  Lines 127-145: the comment. \<open>Continue\<close> is the \<open>continue\<close> of line 131 (the
  comments could not be fetched), \<open>Next\<close> goes on to line 146.
\<close>

datatype flow = Continue run | Next run

definition postComment ::
  "'e Verifier \<Rightarrow> ('e, 'v) pkgs \<Rightarrow> int \<Rightarrow> Bug \<Rightarrow> string \<Rightarrow> run \<Rightarrow> flow" where
  "postComment c p bugID bug message s =
     (if message \<noteq> [] then
        (let s = issue (GetComments_call bugID) s in
         case GetComments (bzClient c) bugID of
           Inl err \<Rightarrow>
             Continue (addErr (''Failed to get comments on bug '' @ fmt_d (ID bug) @ '': ''
                                 @ Error p err) s)
         | Inr comments \<Rightarrow>
             if \<not> alreadyCommented comments message then
               (let cc = \<lparr>CommentCreate_ID = bugID, CommentCreate_Comment = message, IsPrivate = True\<rparr>;
                    s = issue (CreateComment_call cc) s
                in case CreateComment (bzClient c) cc of
                     Inl err \<Rightarrow> Next (addErr (''Failed to comment on bug '' @ fmt_d (ID bug) @ '': ''
                                                 @ Error p err) s)
                   | Inr _ \<Rightarrow> Next s)
             else Next s)
      else Next s)"

text \<open>Lines 146-153: the transition to \<open>VERIFIED\<close>.\<close>

definition transition :: "'e Verifier \<Rightarrow> ('e, 'v) pkgs \<Rightarrow> Bug \<Rightarrow> bool \<Rightarrow> run \<Rightarrow> run" where
  "transition c p bug success s =
     (if success then
        (let upd = \<lparr>BugUpdate_Status = ''VERIFIED''\<rparr>;
             s = issue (UpdateBug_call (ID bug) upd) s
         in case UpdateBug (bzClient c) (ID bug) upd of
              Some err \<Rightarrow> addErr (''Failed to update status for bug '' @ fmt_d (ID bug) @ '': ''
                                    @ Error p err) s
            | None \<Rightarrow> s)
      else s)"

text \<open>Lines 76-153: what the loop body does with a bug that passed the release checks.\<close>

definition evaluateBug ::
  "'e Verifier \<Rightarrow> ('e, 'v) pkgs \<Rightarrow> string \<Rightarrow> int \<Rightarrow> Bug \<Rightarrow> pr list \<Rightarrow> run \<Rightarrow> run" where
  "evaluateBug c p tagName bugID bug extPRs s =
     (case decide c p tagName bug extPRs s of
        (None, s) \<Rightarrow> s
      | (Some (success, message), s) \<Rightarrow>
          (case postComment c p bugID bug message s of
             Continue s \<Rightarrow> s
           | Next s \<Rightarrow> transition c p bug success s))"

text \<open>Lines 54-153: the loop body, for one entry of the map.\<close>

definition verifyBug ::
  "'e Verifier \<Rightarrow> ('e, 'v) pkgs \<Rightarrow> string \<Rightarrow> string \<Rightarrow> int \<Rightarrow> pr list \<Rightarrow> run \<Rightarrow> run" where
  "verifyBug c p tagName tagRelease bugID extPRs s =
     (let s = issue (GetBug_call bugID) s in
      case GetBug (bzClient c) bugID of
        Inl err \<Rightarrow>
          addErr (''Unable to get bugzilla number '' @ fmt_d bugID @ '': '' @ Error p err) s
      | Inr bug \<Rightarrow>
          if length (TargetRelease bug) = 0 \<or> TargetRelease bug ! 0 = ''---'' then s
          else
            (let bugSplitVer = strings_Split (TargetRelease bug ! 0) CHR ''.'' in
             if length bugSplitVer < 2 then
               addErr (''Bug '' @ fmt_d (ID bug) @ '': length of target release `''
                         @ TargetRelease bug ! 0 @ ''` after split by `.` is less than 2'') s
             else
               (let bugRelease = bugSplitVer ! 0 @ ''.'' @ bugSplitVer ! 1 in
                if bugRelease \<noteq> tagRelease then s
                else evaluateBug c p tagName bugID bug extPRs s)))"

text \<open>
  Lines 46-156. The result is the run: its \<open>errs\<close> is the list the source returns, its
  \<open>calls\<close> what it did on the way.
\<close>

definition VerifyBugs :: "'e Verifier \<Rightarrow> ('e, 'v) pkgs \<Rightarrow> int list \<Rightarrow> string \<Rightarrow> run" where
  "VerifyBugs c p bugs tagName =
     (case SemverParseTolerant p tagName of
        Inl err \<Rightarrow>
          \<lparr>errs = [''failed to parse tag `'' @ tagName @ ''` semver: '' @ Error p err], calls = []\<rparr>
      | Inr tagSemVer \<Rightarrow>
          (let tagRelease = SemverToMajorMinor p tagSemVer in
           case getPRs bugs (bzClient c) p of
             (bzPRs, s) \<Rightarrow>
               foldl (\<lambda>s (bugID, extPRs). verifyBug c p tagName tagRelease bugID extPRs s)
                 s (rangeMap p bzPRs)))"

section \<open>Notions used to state the properties\<close>

text \<open>
  A pull request lacks the approval when its labels could not be fetched or do not
  hold \<open>qe-approved\<close>; the errors that the fetch of its labels adds; the call that
  fetches them.
\<close>

definition unlabeled :: "'e Verifier \<Rightarrow> pr \<Rightarrow> bool" where
  "unlabeled c extPR =
     (case GetIssueLabels (ghClient c) (org extPR) (repo extPR) (prNum extPR) of
        Inl err \<Rightarrow> True
      | Inr labels \<Rightarrow> ''qe-approved'' \<notin> set (map Label_Name labels))"

definition labelErrs :: "'e Verifier \<Rightarrow> ('e, 'v) pkgs \<Rightarrow> pr \<Rightarrow> string list" where
  "labelErrs c p extPR =
     (case GetIssueLabels (ghClient c) (org extPR) (repo extPR) (prNum extPR) of
        Inl err \<Rightarrow> [labelErr p extPR err]
      | Inr labels \<Rightarrow> [])"

definition labelCall :: "pr \<Rightarrow> call" where
  "labelCall extPR = GetIssueLabels_call (org extPR) (repo extPR) (prNum extPR)"

text \<open>The calls of a run that update a bug, and those that create a comment.\<close>

fun isUpdateBug :: "call \<Rightarrow> bool" where
  "isUpdateBug (UpdateBug_call i upd) = True"
| "isUpdateBug k = False"

fun isCreateComment :: "call \<Rightarrow> bool" where
  "isCreateComment (CreateComment_call cc) = True"
| "isCreateComment k = False"

text \<open>
  The pull requests among the links of a bug, in order, and what the tracker's answer
  for a bug contributes to the map and to the errors of \<open>getPRs\<close>.
\<close>

definition githubPRs :: "ExternalBug list \<Rightarrow> pr list" where
  "githubPRs extBugs =
     map (\<lambda>extBug. \<lparr>org = Org extBug, repo = Repo extBug, prNum = Num extBug\<rparr>)
       (filter (\<lambda>extBug. Type_URL extBug = ''https://github.com/'') extBugs)"

definition linkedPRs :: "'e bzClient \<Rightarrow> int \<Rightarrow> pr list" where
  "linkedPRs bz bzID =
     (case GetExternalBugPRsOnBug bz bzID of Inl err \<Rightarrow> [] | Inr extBugs \<Rightarrow> githubPRs extBugs)"

definition linkErrs :: "'e bzClient \<Rightarrow> ('e, 'v) pkgs \<Rightarrow> int \<Rightarrow> string list" where
  "linkErrs bz p bzID =
     (case GetExternalBugPRsOnBug bz bzID of
        Inl err \<Rightarrow>
          if IsAccessDenied p err then []
          else [''Failed to get external bugs for bugzilla bug '' @ fmt_d bzID @ '': '' @ Error p err]
      | Inr extBugs \<Rightarrow> [])"

definition entry :: "(int \<rightharpoonup> pr list) \<Rightarrow> int \<Rightarrow> pr list" where
  "entry bzPRs bzID = (case bzPRs bzID of None \<Rightarrow> [] | Some prs \<Rightarrow> prs)"

text \<open>
  The outcome and the message of a bug that is not yet \<open>VERIFIED\<close>, as a function of
  the answers of the code host.
\<close>

definition verdict :: "'e Verifier \<Rightarrow> ('e, 'v) pkgs \<Rightarrow> string \<Rightarrow> Bug \<Rightarrow> pr list \<Rightarrow> bool \<times> string" where
  "verdict c p tagName bug extPRs =
     (if Status bug = ''ON_QA'' then
        composeMessage tagName bug (filter (unlabeled c) extPRs)
          (concat (map (labelErrs c p) extPRs))
      else composeMessage tagName bug [] [''Bug is not in ON_QA status''])"

text \<open>
  Lines 60-75 let a bug through to the status evaluation when its first target release
  is set, splits at the dots into two pieces or more, and its first two pieces are the
  release of the tag.
\<close>

definition applicable :: "string \<Rightarrow> Bug \<Rightarrow> bool" where
  "applicable tagRelease bug \<longleftrightarrow>
     length (TargetRelease bug) \<noteq> 0
     \<and> TargetRelease bug ! 0 \<noteq> ''---''
     \<and> 2 \<le> length (strings_Split (TargetRelease bug ! 0) CHR ''.'')
     \<and> strings_Split (TargetRelease bug ! 0) CHR ''.'' ! 0 @ ''.''
         @ strings_Split (TargetRelease bug ! 0) CHR ''.'' ! 1 = tagRelease"

definition linksOf :: "'e bzClient \<Rightarrow> int list \<Rightarrow> int \<Rightarrow> pr list" where
  "linksOf bz input bzID = concat (map (linkedPRs bz) (filter (\<lambda>i. i = bzID) input))"

section \<open>A tracker and a code host to run the code on\<close>

text \<open>
  A tracker that knows one bug, linked to the pull request \<open>org/repo#5\<close> and to a
  record of another system, and whose links cannot be read for the bugs 403 (access
  denied) and 500 (another failure); a code host that gives the same answer for every
  pull request; a parser that accepts the tag \<open>4.14.3\<close>.
\<close>

definition demo_pr :: pr where
  "demo_pr = \<lparr>org = ''org'', repo = ''repo'', prNum = 5\<rparr>"

definition demo_bug :: "string \<Rightarrow> Bug" where
  "demo_bug status =
     \<lparr>ID = 7, Status = status, TargetRelease = [''4.14.0''],
      QAContactDetail = Some \<lparr>Name = ''Quinn''\<rparr>\<rparr>"

definition demo_bz :: "Bug \<Rightarrow> string + Comment list \<Rightarrow> string bzClient" where
  "demo_bz bug comments =
     \<lparr>GetBug = (\<lambda>i. if i = ID bug then Inr bug else Inl ''no such bug''),
      GetExternalBugPRsOnBug = (\<lambda>i.
        if i = ID bug then
          Inr [\<lparr>Type_URL = ''https://github.com/'', Org = ''org'', Repo = ''repo'', Num = 5\<rparr>,
               \<lparr>Type_URL = ''https://issues.example.org/'', Org = ''x'', Repo = ''y'', Num = 1\<rparr>]
        else if i = 403 then Inl ''denied''
        else if i = 500 then Inl ''timeout''
        else Inr []),
      GetComments = (\<lambda>i. comments),
      CreateComment = (\<lambda>cc. Inl ''read only''),
      UpdateBug = (\<lambda>i upd. None)\<rparr>"

definition demo :: "Bug \<Rightarrow> string + Comment list \<Rightarrow> string + Label list \<Rightarrow> string Verifier" where
  "demo bug comments labels =
     \<lparr>bzClient = demo_bz bug comments,
      ghClient = \<lparr>GetIssueLabels = (\<lambda>org repo num. labels)\<rparr>\<rparr>"

definition demo_pkgs :: "(string, string) pkgs" where
  "demo_pkgs =
     \<lparr>SemverParseTolerant = (\<lambda>tag. if tag = ''4.14.3'' then Inr ''4.14'' else Inl ''no version''),
      SemverToMajorMinor = (\<lambda>v. v),
      IsAccessDenied = (\<lambda>err. err = ''denied''),
      Error = (\<lambda>err. err),
      rangeMap = (\<lambda>bzPRs. concat (map (\<lambda>k. case bzPRs k of None \<Rightarrow> [] | Some prs \<Rightarrow> [(k, prs)])
                                      [7, 403, 500]))\<rparr>"

definition demo_bug_unset :: Bug where
  "demo_bug_unset =
     \<lparr>ID = 7, Status = ''ON_QA'', TargetRelease = [''---''],
      QAContactDetail = Some \<lparr>Name = ''Quinn''\<rparr>\<rparr>"


definition start :: run where
  "start = \<lparr>errs = [], calls = []\<rparr>"

section \<open>The parts of the loop body in closed form\<close>

lemma hasLabel_iff: "hasLabel labels \<longleftrightarrow> ''qe-approved'' \<in> set (map Label_Name labels)"
  by (induction labels) auto

lemma alreadyCommented_iff:
  "alreadyCommented comments message \<longleftrightarrow>
     (\<exists>cm \<in> set comments. Text cm = message
        \<and> (Creator cm = ''openshift-bugzilla-robot''
           \<or> Creator cm = ''openshift-bugzilla-robot@redhat.com''))"
  by (induction comments) auto

lemma checkPRs_eq:
  "checkPRs c p extPRs (U, E, s) =
     (U @ filter (unlabeled c) extPRs,
      E @ concat (map (labelErrs c p) extPRs),
      s\<lparr>errs := errs s @ concat (map (labelErrs c p) extPRs),
        calls := calls s @ map labelCall extPRs\<rparr>)"
proof (induction extPRs arbitrary: U E s)
  case Nil
  show ?case by simp
next
  case (Cons x xs)
  show ?case
    by (cases "GetIssueLabels (ghClient c) (org x) (repo x) (prNum x)")
       (simp_all add: Cons.IH unlabeled_def labelErrs_def labelCall_def issue_def addErr_def
          hasLabel_iff)
qed

lemma foldl_append_concat:
  "foldl (\<lambda>m x. m @ f x) m xs = m @ concat (map f xs)"
  by (induction xs arbitrary: m) simp_all

lemma composeMessage_success:
  "composeMessage tagName bug [] [] =
     (True, ''Bugfix included in accepted release '' @ tagName
        @ ''\<newline>All linked GitHub PRs have been approved by a QA contact; updating bug status to VERIFIED'')"
  by (simp add: composeMessage_def)

lemma composeMessage_failure:
  assumes "U \<noteq> [] \<or> E \<noteq> []"
  shows "composeMessage tagName bug U E =
     (False, ''Bugfix included in accepted release '' @ tagName
        @ ''\<newline>Bug will not be automatically moved to VERIFIED for the following reasons:''
        @ concat (map notApprovedLine U) @ concat (map reasonLine E)
        @ ''\<newline>\<newline>This bug must now be manually moved to VERIFIED''
        @ (case QAContactDetail bug of None \<Rightarrow> [] | Some detail \<Rightarrow> '' by '' @ Name detail))"
  using assms
  by (cases "QAContactDetail bug") (auto simp add: composeMessage_def foldl_append_concat)

lemma fst_composeMessage: "fst (composeMessage tagName bug U E) \<longleftrightarrow> U = [] \<and> E = []"
  by (cases "U = [] \<and> E = []") (auto simp add: composeMessage_success composeMessage_failure)

lemma snd_composeMessage: "snd (composeMessage tagName bug U E) \<noteq> []"
  by (cases "U = [] \<and> E = []") (auto simp add: composeMessage_success composeMessage_failure)

lemma decide_ON_QA:
  assumes "Status bug = ''ON_QA''"
  shows "decide c p tagName bug extPRs s =
     (Some (verdict c p tagName bug extPRs),
      s\<lparr>errs := errs s @ concat (map (labelErrs c p) extPRs),
        calls := calls s @ map labelCall extPRs\<rparr>)"
  using assms by (simp add: decide_def checkPRs_eq verdict_def)

lemma decide_other:
  assumes "Status bug \<noteq> ''ON_QA''" "Status bug \<noteq> ''VERIFIED''"
  shows "decide c p tagName bug extPRs s = (Some (verdict c p tagName bug extPRs), s)"
  using assms by (simp add: decide_def verdict_def)

lemma decide_VERIFIED:
  assumes "Status bug = ''VERIFIED''"
  shows "decide c p tagName bug extPRs s = (None, s)"
  using assms by (simp add: decide_def)

lemma snd_verdict: "snd (verdict c p tagName bug extPRs) \<noteq> []"
  by (simp add: verdict_def snd_composeMessage)

lemma postComment_eq:
  assumes "message \<noteq> []"
  shows "postComment c p bugID bug message s =
     (case GetComments (bzClient c) bugID of
        Inl err \<Rightarrow>
          Continue (s\<lparr>errs := errs s @ [''Failed to get comments on bug '' @ fmt_d (ID bug) @ '': '' @ Error p err],
                     calls := calls s @ [GetComments_call bugID]\<rparr>)
      | Inr comments \<Rightarrow>
          if alreadyCommented comments message then Next (s\<lparr>calls := calls s @ [GetComments_call bugID]\<rparr>)
          else Next (s\<lparr>errs := errs s @
                (case CreateComment (bzClient c) \<lparr>CommentCreate_ID = bugID, CommentCreate_Comment = message, IsPrivate = True\<rparr> of
                   Inl err \<Rightarrow> [''Failed to comment on bug '' @ fmt_d (ID bug) @ '': '' @ Error p err]
                 | Inr _ \<Rightarrow> []),
              calls := calls s @ [GetComments_call bugID,
                 CreateComment_call \<lparr>CommentCreate_ID = bugID, CommentCreate_Comment = message, IsPrivate = True\<rparr>]\<rparr>))"
  using assms
  by (simp add: postComment_def issue_def addErr_def Let_def split: sum.splits)

lemma transition_calls:
  "calls (transition c p bug success s) =
     calls s @ (if success then [UpdateBug_call (ID bug) \<lparr>BugUpdate_Status = ''VERIFIED''\<rparr>] else [])"
  by (simp add: transition_def issue_def addErr_def Let_def split: option.splits)

lemma evaluateBug_calls:
  "calls (evaluateBug c p tagName bugID bug extPRs s) = calls s @
     (if Status bug = ''VERIFIED'' then []
      else (if Status bug = ''ON_QA'' then map labelCall extPRs else [])
        @ [GetComments_call bugID]
        @ (case GetComments (bzClient c) bugID of
             Inl err \<Rightarrow> []
           | Inr comments \<Rightarrow>
               (if alreadyCommented comments (snd (verdict c p tagName bug extPRs)) then []
                else [CreateComment_call \<lparr>CommentCreate_ID = bugID,
                        CommentCreate_Comment = snd (verdict c p tagName bug extPRs), IsPrivate = True\<rparr>])
               @ (if fst (verdict c p tagName bug extPRs)
                  then [UpdateBug_call (ID bug) \<lparr>BugUpdate_Status = ''VERIFIED''\<rparr>] else [])))"
proof (cases "Status bug = ''VERIFIED''")
  case True
  then show ?thesis by (simp add: evaluateBug_def decide_VERIFIED)
next
  case nv: False
  obtain success message where v: "verdict c p tagName bug extPRs = (success, message)"
    by (cases "verdict c p tagName bug extPRs")
  have m: "message \<noteq> []" using snd_verdict[of c p tagName bug extPRs] v by simp
  show ?thesis
  proof (cases "Status bug = ''ON_QA''")
    case True
    show ?thesis
      using nv True
      by (simp add: evaluateBug_def decide_ON_QA v postComment_eq[OF m] transition_calls
            split: sum.splits)
  next
    case False
    show ?thesis
      using nv False
      by (simp add: evaluateBug_def decide_other v postComment_eq[OF m] transition_calls
            split: sum.splits)
  qed
qed

lemma unlabeled_fetched:
  assumes "GetIssueLabels (ghClient c) (org x) (repo x) (prNum x) = Inr labels"
  shows "unlabeled c x \<longleftrightarrow> ''qe-approved'' \<notin> set (map Label_Name labels)"
    and "labelErrs c p x = []"
  using assms by (simp_all add: unlabeled_def labelErrs_def)

lemma labelErrs_all_fetched:
  assumes "\<forall>extPR \<in> set extPRs. \<exists>labels.
      GetIssueLabels (ghClient c) (org extPR) (repo extPR) (prNum extPR) = Inr labels"
  shows "concat (map (labelErrs c p) extPRs) = []"
  using assms by (auto simp add: labelErrs_def)

section \<open>The claims\<close>

lemma fst_decide:
  "fst (decide c p tagName bug extPRs s) =
     (if Status bug = ''VERIFIED'' then None else Some (verdict c p tagName bug extPRs))"
  by (simp add: decide_def verdict_def checkPRs_eq)

lemma filter_isUpdateBug_labelCall: "filter isUpdateBug (map labelCall xs) = []"
  by (induction xs) (simp_all add: labelCall_def)

lemma filter_isCreateComment_labelCall: "filter isCreateComment (map labelCall xs) = []"
  by (induction xs) (simp_all add: labelCall_def)

lemma evaluateBug_updates:
  "filter isUpdateBug (calls (evaluateBug c p tagName bugID bug extPRs s)) =
     filter isUpdateBug (calls s) @
       (if Status bug \<noteq> ''VERIFIED'' \<and> fst (verdict c p tagName bug extPRs)
           \<and> (\<exists>comments. GetComments (bzClient c) bugID = Inr comments)
        then [UpdateBug_call (ID bug) \<lparr>BugUpdate_Status = ''VERIFIED''\<rparr>] else [])"
  by (cases "GetComments (bzClient c) bugID")
     (simp_all add: evaluateBug_calls filter_isUpdateBug_labelCall)

lemma evaluateBug_creates:
  "filter isCreateComment (calls (evaluateBug c p tagName bugID bug extPRs s)) =
     filter isCreateComment (calls s) @
       (case GetComments (bzClient c) bugID of
          Inl err \<Rightarrow> []
        | Inr comments \<Rightarrow>
            if Status bug = ''VERIFIED''
               \<or> alreadyCommented comments (snd (verdict c p tagName bug extPRs)) then []
            else [CreateComment_call \<lparr>CommentCreate_ID = bugID,
                    CommentCreate_Comment = snd (verdict c p tagName bug extPRs), IsPrivate = True\<rparr>])"
  by (cases "GetComments (bzClient c) bugID")
     (simp_all add: evaluateBug_calls filter_isCreateComment_labelCall)

text \<open>
  C2, as amended. In the iteration of a bug the update to \<open>VERIFIED\<close> is issued
  exactly when the outcome is success and the comments of the bug could be fetched
  (line 131 leaves the iteration when they could not). An outcome other than success
  issues no update, and whether \<open>CreateComment\<close> fails plays no part.
\<close>

theorem update_iff_success_and_comments_fetched:
  "filter isUpdateBug (calls (evaluateBug c p tagName bugID bug extPRs s)) =
     filter isUpdateBug (calls s) @
       (if (\<exists>message. fst (decide c p tagName bug extPRs s) = Some (True, message))
           \<and> (\<exists>comments. GetComments (bzClient c) bugID = Inr comments)
        then [UpdateBug_call (ID bug) \<lparr>BugUpdate_Status = ''VERIFIED''\<rparr>] else [])"
proof -
  have "(\<exists>message. fst (decide c p tagName bug extPRs s) = Some (True, message)) \<longleftrightarrow>
      Status bug \<noteq> ''VERIFIED'' \<and> fst (verdict c p tagName bug extPRs)"
    by (cases "verdict c p tagName bug extPRs") (auto simp add: fst_decide)
  then show ?thesis by (simp add: evaluateBug_updates)
qed

theorem update_iff_success_and_comments_fetched_witness:
  "fst (decide (demo (demo_bug ''ON_QA'') (Inr []) (Inr [\<lparr>Label_Name = ''qe-approved''\<rparr>]))
          demo_pkgs ''4.14.3'' (demo_bug ''ON_QA'') [demo_pr] start) =
     Some (True, ''Bugfix included in accepted release 4.14.3\<newline>All linked GitHub PRs have been approved by a QA contact; updating bug status to VERIFIED'')
   \<and> CreateComment (bzClient (demo (demo_bug ''ON_QA'') (Inr []) (Inr [\<lparr>Label_Name = ''qe-approved''\<rparr>])))
        \<lparr>CommentCreate_ID = 7, CommentCreate_Comment = ''Bugfix included in accepted release 4.14.3\<newline>All linked GitHub PRs have been approved by a QA contact; updating bug status to VERIFIED'', IsPrivate = True\<rparr>
       = Inl ''read only''
   \<and> filter isUpdateBug (calls (evaluateBug
          (demo (demo_bug ''ON_QA'') (Inr []) (Inr [\<lparr>Label_Name = ''qe-approved''\<rparr>]))
          demo_pkgs ''4.14.3'' 7 (demo_bug ''ON_QA'') [demo_pr] start)) =
       [UpdateBug_call 7 \<lparr>BugUpdate_Status = ''VERIFIED''\<rparr>]
   \<and> filter isUpdateBug (calls (evaluateBug
          (demo (demo_bug ''ON_QA'') (Inr []) (Inr [\<lparr>Label_Name = ''lgtm''\<rparr>]))
          demo_pkgs ''4.14.3'' 7 (demo_bug ''ON_QA'') [demo_pr] start)) = []"
  using update_iff_success_and_comments_fetched[of
      "demo (demo_bug ''ON_QA'') (Inr []) (Inr [\<lparr>Label_Name = ''qe-approved''\<rparr>])"
      demo_pkgs "''4.14.3''" 7 "demo_bug ''ON_QA''" "[demo_pr]" start]
    update_iff_success_and_comments_fetched[of
      "demo (demo_bug ''ON_QA'') (Inr []) (Inr [\<lparr>Label_Name = ''lgtm''\<rparr>])"
      demo_pkgs "''4.14.3''" 7 "demo_bug ''ON_QA''" "[demo_pr]" start]
  by (simp add: fst_decide verdict_def unlabeled_def labelErrs_def composeMessage_success
        composeMessage_failure demo_def demo_bz_def demo_bug_def demo_pr_def start_def)

text \<open>
  C2 as stated fails: the pull request of bug 7 is approved and the outcome is success,
  the fetch of the comments fails, and the run issues no update.
\<close>

theorem update_skipped_when_comments_unavailable:
  "fst (decide (demo (demo_bug ''ON_QA'') (Inl ''timeout'') (Inr [\<lparr>Label_Name = ''qe-approved''\<rparr>]))
          demo_pkgs ''4.14.3'' (demo_bug ''ON_QA'') [demo_pr] start) =
     Some (True, ''Bugfix included in accepted release 4.14.3\<newline>All linked GitHub PRs have been approved by a QA contact; updating bug status to VERIFIED'')
   \<and> calls (evaluateBug
          (demo (demo_bug ''ON_QA'') (Inl ''timeout'') (Inr [\<lparr>Label_Name = ''qe-approved''\<rparr>]))
          demo_pkgs ''4.14.3'' 7 (demo_bug ''ON_QA'') [demo_pr] start) =
       [GetIssueLabels_call ''org'' ''repo'' 5, GetComments_call 7]
   \<and> errs (evaluateBug
          (demo (demo_bug ''ON_QA'') (Inl ''timeout'') (Inr [\<lparr>Label_Name = ''qe-approved''\<rparr>]))
          demo_pkgs ''4.14.3'' 7 (demo_bug ''ON_QA'') [demo_pr] start) =
       [''Failed to get comments on bug 7: timeout'']"
  by (simp add: evaluateBug_def decide_def composeMessage_def postComment_def issue_def addErr_def
        demo_def demo_bz_def demo_bug_def demo_pr_def demo_pkgs_def start_def fmt_d_def
        decimal.simps[of 7] digit_def)

lemma verifyBug_fetched:
  assumes "GetBug (bzClient c) bugID = Inr bug"
  shows "verifyBug c p tagName tagRelease bugID extPRs s =
     (if applicable tagRelease bug
      then evaluateBug c p tagName bugID bug extPRs (issue (GetBug_call bugID) s)
      else if length (TargetRelease bug) \<noteq> 0 \<and> TargetRelease bug ! 0 \<noteq> ''---''
              \<and> length (strings_Split (TargetRelease bug ! 0) CHR ''.'') < 2
      then addErr (''Bug '' @ fmt_d (ID bug) @ '': length of target release `''
                     @ TargetRelease bug ! 0 @ ''` after split by `.` is less than 2'')
             (issue (GetBug_call bugID) s)
      else issue (GetBug_call bugID) s)"
  using assms by (auto simp add: verifyBug_def applicable_def Let_def)

lemma verifyBug_not_fetched:
  assumes "GetBug (bzClient c) bugID = Inl err"
  shows "verifyBug c p tagName tagRelease bugID extPRs s =
     addErr (''Unable to get bugzilla number '' @ fmt_d bugID @ '': '' @ Error p err)
       (issue (GetBug_call bugID) s)"
  using assms by (simp add: verifyBug_def)

lemma applicableI:
  assumes "TargetRelease bug = target # others"
    and "strings_Split target CHR ''.'' = major # minor # rest"
    and "major @ ''.'' @ minor = tagRelease"
  shows "applicable tagRelease bug"
proof -
  have "target \<noteq> ''---''"
  proof
    assume "target = ''---''"
    then have "strings_Split target CHR ''.'' = [''---'']" by simp
    then show False using assms(2) by simp
  qed
  then show ?thesis using assms by (simp add: applicable_def)
qed

lemma calls_issue: "calls (issue k s) = calls s @ [k]"
  by (simp add: issue_def)

lemma errs_issue: "errs (issue k s) = errs s"
  by (simp add: issue_def)

lemma calls_addErr: "calls (addErr e s) = calls s"
  by (simp add: addErr_def)

lemma errs_addErr: "errs (addErr e s) = errs s @ [e]"
  by (simp add: addErr_def)

lemma getPRs_links_eq:
  "getPRs_links bzID extBugs bzPRs =
     (if githubPRs extBugs = [] then bzPRs
      else bzPRs(bzID \<mapsto> entry bzPRs bzID @ githubPRs extBugs))"
proof (induction extBugs arbitrary: bzPRs)
  case Nil
  show ?case by (simp add: githubPRs_def)
next
  case (Cons x xs)
  show ?case
    by (cases "bzPRs bzID") (auto simp add: Cons.IH githubPRs_def entry_def fun_eq_iff)
qed

lemma getPRs_loop_eq:
  "getPRs_loop bz p input (bzPRs, s) =
     ((\<lambda>bzID. if linksOf bz input bzID = [] then bzPRs bzID
               else Some (entry bzPRs bzID @ linksOf bz input bzID)),
      s\<lparr>errs := errs s @ concat (map (linkErrs bz p) input),
        calls := calls s @ map GetExternalBugPRsOnBug_call input\<rparr>)"
proof (induction input arbitrary: bzPRs s)
  case Nil
  show ?case by (simp add: linksOf_def)
next
  case (Cons b input)
  show ?case
  proof (cases "GetExternalBugPRsOnBug bz b")
    case (Inl err)
    then show ?thesis
      by (auto simp add: Cons.IH linksOf_def linkedPRs_def linkErrs_def issue_def addErr_def
            fun_eq_iff)
  next
    case (Inr extBugs)
    then show ?thesis
      by (auto simp add: Cons.IH getPRs_links_eq linksOf_def linkedPRs_def linkErrs_def
            issue_def entry_def fun_eq_iff)
  qed
qed

lemma linksOf_count:
  "linksOf bz input bzID = concat (replicate (count_list input bzID) (linkedPRs bz bzID))"
  by (induction input) (simp_all add: linksOf_def)

lemma getPRs_eq:
  "getPRs input bz p =
     ((\<lambda>bzID. if linksOf bz input bzID = [] then None else Some (linksOf bz input bzID)),
      \<lparr>errs = concat (map (linkErrs bz p) input),
       calls = map GetExternalBugPRsOnBug_call input\<rparr>)"
  by (auto simp add: getPRs_def getPRs_loop_eq entry_def fun_eq_iff)

lemma linkedPRs_empty_iff:
  "githubPRs extBugs = [] \<longleftrightarrow> (\<forall>extBug \<in> set extBugs. Type_URL extBug \<noteq> ''https://github.com/'')"
  by (simp add: githubPRs_def filter_empty_conv)

lemma concat_replicate_empty_iff: "concat (replicate k xs) = [] \<longleftrightarrow> k = 0 \<or> xs = []"
  by (induction k) auto

lemma map_concat_replicate: "map f (concat (replicate k xs)) = concat (replicate k (map f xs))"
  by (induction k) simp_all

lemma filter_concat_replicate:
  "filter P (concat (replicate k xs)) = concat (replicate k (filter P xs))"
  by (induction k) simp_all

lemma concat_map_concat_replicate:
  "concat (map g (concat (replicate k xs))) = concat (replicate k (concat (map g xs)))"
  by (induction k) simp_all

lemma fmt_d_7: "fmt_d 7 = ''7''"
  by code_simp

lemma fmt_d_500: "fmt_d 500 = ''500''"
  by code_simp

text \<open>
  C8. \<open>getPRs\<close> on any input list: its errors are, in input order, one error for each
  bug whose links could not be fetched for a reason other than access denied, and
  nothing for a bug that was denied or fetched; every input bug has its links fetched,
  whatever happened to the bugs before it; a bug whose fetch failed, or gave no link
  hosted on \<open>https://github.com/\<close>, has no entry in the map; a bug of the input with
  such a link has one.
\<close>

theorem getPRs_error_classification:
  "errs (snd (getPRs input bz p)) =
     concat (map (\<lambda>bzID. case GetExternalBugPRsOnBug bz bzID of
                Inl err \<Rightarrow>
                  if IsAccessDenied p err then []
                  else [''Failed to get external bugs for bugzilla bug '' @ fmt_d bzID @ '': ''
                          @ Error p err]
              | Inr extBugs \<Rightarrow> []) input)
   \<and> calls (snd (getPRs input bz p)) = map GetExternalBugPRsOnBug_call input
   \<and> (\<forall>bzID err. GetExternalBugPRsOnBug bz bzID = Inl err \<longrightarrow> fst (getPRs input bz p) bzID = None)
   \<and> (\<forall>bzID extBugs.
         GetExternalBugPRsOnBug bz bzID = Inr extBugs
         \<and> (\<forall>extBug \<in> set extBugs. Type_URL extBug \<noteq> ''https://github.com/'')
         \<longrightarrow> fst (getPRs input bz p) bzID = None)
   \<and> (\<forall>bzID extBugs.
         bzID \<in> set input
         \<and> GetExternalBugPRsOnBug bz bzID = Inr extBugs
         \<and> (\<exists>extBug \<in> set extBugs. Type_URL extBug = ''https://github.com/'')
         \<longrightarrow> fst (getPRs input bz p) bzID =
               Some (concat (replicate (count_list input bzID) (githubPRs extBugs))))"
proof -
  have e: "linkErrs bz p = (\<lambda>bzID. case GetExternalBugPRsOnBug bz bzID of
                Inl err \<Rightarrow>
                  if IsAccessDenied p err then []
                  else [''Failed to get external bugs for bugzilla bug '' @ fmt_d bzID @ '': ''
                          @ Error p err]
              | Inr extBugs \<Rightarrow> [])"
    by (simp add: fun_eq_iff linkErrs_def)
  have 1: "errs (snd (getPRs input bz p)) = concat (map (linkErrs bz p) input)"
    by (simp add: getPRs_eq)
  have 2: "calls (snd (getPRs input bz p)) = map GetExternalBugPRsOnBug_call input"
    by (simp add: getPRs_eq)
  have 3: "fst (getPRs input bz p) bzID = None"
    if "GetExternalBugPRsOnBug bz bzID = Inl err" for bzID err
    using that by (simp add: getPRs_eq linksOf_count linkedPRs_def)
  have 4: "fst (getPRs input bz p) bzID = None"
    if "GetExternalBugPRsOnBug bz bzID = Inr extBugs"
      and "\<forall>extBug \<in> set extBugs. Type_URL extBug \<noteq> ''https://github.com/''"
    for bzID extBugs
  proof -
    have "githubPRs extBugs = []" using that(2) by (simp add: linkedPRs_empty_iff)
    then show ?thesis using that(1) by (simp add: getPRs_eq linksOf_count linkedPRs_def)
  qed
  have 5: "fst (getPRs input bz p) bzID =
      Some (concat (replicate (count_list input bzID) (githubPRs extBugs)))"
    if "bzID \<in> set input" and "GetExternalBugPRsOnBug bz bzID = Inr extBugs"
      and "\<exists>extBug \<in> set extBugs. Type_URL extBug = ''https://github.com/''"
    for bzID extBugs
  proof -
    have "githubPRs extBugs \<noteq> []" using that(3) by (auto simp add: linkedPRs_empty_iff)
    moreover have "count_list input bzID \<noteq> 0" using that(1) by (simp add: count_list_0_iff)
    ultimately show ?thesis
      using that(2)
      by (simp add: getPRs_eq linksOf_count linkedPRs_def concat_replicate_empty_iff)
  qed
  show ?thesis unfolding 1 2 e[symmetric] using 3 4 5 by blast
qed

theorem getPRs_error_classification_witness:
  "GetExternalBugPRsOnBug (demo_bz (demo_bug ''ON_QA'') (Inr [])) 403 = Inl ''denied''
   \<and> IsAccessDenied demo_pkgs ''denied''
   \<and> GetExternalBugPRsOnBug (demo_bz (demo_bug ''ON_QA'') (Inr [])) 500 = Inl ''timeout''
   \<and> \<not> IsAccessDenied demo_pkgs ''timeout''
   \<and> GetExternalBugPRsOnBug (demo_bz (demo_bug ''ON_QA'') (Inr [])) 8 = Inr []
   \<and> errs (snd (getPRs [403, 500, 8, 7] (demo_bz (demo_bug ''ON_QA'') (Inr [])) demo_pkgs)) =
       [''Failed to get external bugs for bugzilla bug 500: timeout'']
   \<and> calls (snd (getPRs [403, 500, 8, 7] (demo_bz (demo_bug ''ON_QA'') (Inr [])) demo_pkgs)) =
       [GetExternalBugPRsOnBug_call 403, GetExternalBugPRsOnBug_call 500,
        GetExternalBugPRsOnBug_call 8, GetExternalBugPRsOnBug_call 7]
   \<and> fst (getPRs [403, 500, 8, 7] (demo_bz (demo_bug ''ON_QA'') (Inr [])) demo_pkgs) 403 = None
   \<and> fst (getPRs [403, 500, 8, 7] (demo_bz (demo_bug ''ON_QA'') (Inr [])) demo_pkgs) 500 = None
   \<and> fst (getPRs [403, 500, 8, 7] (demo_bz (demo_bug ''ON_QA'') (Inr [])) demo_pkgs) 8 = None
   \<and> fst (getPRs [403, 500, 8, 7] (demo_bz (demo_bug ''ON_QA'') (Inr [])) demo_pkgs) 7 = Some [demo_pr]"
  using getPRs_error_classification[of "[403, 500, 8, 7]" "demo_bz (demo_bug ''ON_QA'') (Inr [])" demo_pkgs]
  by (simp add: getPRs_eq linksOf_def linkedPRs_def linkErrs_def githubPRs_def
        demo_bz_def demo_bug_def demo_pkgs_def demo_pr_def fmt_d_500)

text \<open>
  C10. A bug that occurs \<open>k\<close> times in the input and whose links hold \<open>n\<close> pull
  requests: its entry in the map is the list of these pull requests \<open>k\<close> times over,
  \<open>k * n\<close> entries, and there is no entry exactly when \<open>k * n = 0\<close>. The status
  evaluation of lines 89-106 then fetches the labels of each pull request \<open>k\<close> times
  and composes the message from the \<open>k\<close>-fold lists.
\<close>

theorem duplicate_ids_concatenate_links:
  assumes links: "GetExternalBugPRsOnBug (bzClient c) bzID = Inr extBugs"
    and k: "count_list input bzID = k"
    and n: "length (filter (\<lambda>extBug. Type_URL extBug = ''https://github.com/'') extBugs) = n"
    and resolved: "extPRs = (case fst (getPRs input (bzClient c) p) bzID of None \<Rightarrow> [] | Some prs \<Rightarrow> prs)"
  shows "extPRs = concat (replicate k (githubPRs extBugs))
    \<and> length extPRs = k * n
    \<and> (fst (getPRs input (bzClient c) p) bzID = None \<longleftrightarrow> k * n = 0)
    \<and> (Status bug = ''ON_QA'' \<longrightarrow>
         calls (snd (decide c p tagName bug extPRs s)) =
           calls s @ concat (replicate k (map labelCall (githubPRs extBugs)))
         \<and> fst (decide c p tagName bug extPRs s) =
             Some (composeMessage tagName bug
                     (concat (replicate k (filter (unlabeled c) (githubPRs extBugs))))
                     (concat (replicate k (concat (map (labelErrs c p) (githubPRs extBugs)))))))"
proof -
  have len: "length (githubPRs extBugs) = n"
    using n by (simp add: githubPRs_def)
  have l: "linksOf (bzClient c) input bzID = concat (replicate k (githubPRs extBugs))"
    using links k by (simp add: linksOf_count linkedPRs_def)
  have 1: "extPRs = concat (replicate k (githubPRs extBugs))"
    using resolved l by (simp add: getPRs_eq)
  have 2: "length extPRs = k * n"
    unfolding 1 using len by (induction k) simp_all
  have 3: "fst (getPRs input (bzClient c) p) bzID = None \<longleftrightarrow> k * n = 0"
    using l len by (auto simp add: getPRs_eq concat_replicate_empty_iff)
  have 4: "calls (snd (decide c p tagName bug extPRs s)) =
      calls s @ concat (replicate k (map labelCall (githubPRs extBugs)))"
    if "Status bug = ''ON_QA''"
    using that by (simp add: decide_ON_QA 1 map_concat_replicate)
  have 5: "fst (decide c p tagName bug extPRs s) =
      Some (composeMessage tagName bug
             (concat (replicate k (filter (unlabeled c) (githubPRs extBugs))))
             (concat (replicate k (concat (map (labelErrs c p) (githubPRs extBugs))))))"
    if "Status bug = ''ON_QA''"
  proof -
    have "fst (decide c p tagName bug extPRs s) =
        Some (composeMessage tagName bug (filter (unlabeled c) extPRs)
               (concat (map (labelErrs c p) extPRs)))"
      using that by (simp add: decide_ON_QA verdict_def)
    then show ?thesis
      unfolding 1 filter_concat_replicate concat_map_concat_replicate .
  qed
  show ?thesis using 1 2 3 4 5 by blast
qed

theorem duplicate_ids_concatenate_links_witness:
  "GetExternalBugPRsOnBug (bzClient (demo (demo_bug ''ON_QA'') (Inr []) (Inr []))) 7 =
     Inr [\<lparr>Type_URL = ''https://github.com/'', Org = ''org'', Repo = ''repo'', Num = 5\<rparr>,
          \<lparr>Type_URL = ''https://issues.example.org/'', Org = ''x'', Repo = ''y'', Num = 1\<rparr>]
   \<and> count_list [7, 403, 7] (7::int) = 2
   \<and> fst (getPRs [7, 403, 7] (bzClient (demo (demo_bug ''ON_QA'') (Inr []) (Inr []))) demo_pkgs) 7 =
       Some [demo_pr, demo_pr]
   \<and> length [demo_pr, demo_pr] = 2 * 1
   \<and> calls (snd (decide (demo (demo_bug ''ON_QA'') (Inr []) (Inr [])) demo_pkgs ''4.14.3''
               (demo_bug ''ON_QA'') [demo_pr, demo_pr] start)) =
       [GetIssueLabels_call ''org'' ''repo'' 5, GetIssueLabels_call ''org'' ''repo'' 5]"
  using duplicate_ids_concatenate_links[of "demo (demo_bug ''ON_QA'') (Inr []) (Inr [])" 7
      "[\<lparr>Type_URL = ''https://github.com/'', Org = ''org'', Repo = ''repo'', Num = 5\<rparr>,
        \<lparr>Type_URL = ''https://issues.example.org/'', Org = ''x'', Repo = ''y'', Num = 1\<rparr>]"
      "[7, 403, 7]" 2 1 "[demo_pr, demo_pr]" demo_pkgs "demo_bug ''ON_QA''" "''4.14.3''" start]
  by (simp add: getPRs_eq linksOf_def linkedPRs_def githubPRs_def labelCall_def
        demo_def demo_bz_def demo_bug_def demo_pr_def start_def numeral_2_eq_2)

lemma verifyBug_calls_start:
  "\<exists>new. calls (verifyBug c p tagName tagRelease bugID extPRs s) =
      calls s @ GetBug_call bugID # new"
proof (cases "GetBug (bzClient c) bugID")
  case (Inl err)
  then show ?thesis by (simp add: verifyBug_not_fetched calls_addErr calls_issue)
next
  case (Inr bug)
  then show ?thesis
    by (simp add: verifyBug_fetched evaluateBug_calls calls_addErr calls_issue)
qed

lemma fst_verdict_ON_QA:
  assumes "fst (verdict c p tagName bug extPRs)"
  shows "Status bug = ''ON_QA''"
  using assms by (auto simp add: verdict_def fst_composeMessage split: if_splits)

lemma verifyBug_updates:
  "filter isUpdateBug (calls (verifyBug c p tagName tagRelease bugID extPRs s)) =
     filter isUpdateBug (calls s) @
       (case GetBug (bzClient c) bugID of
          Inl err \<Rightarrow> []
        | Inr bug \<Rightarrow>
            if applicable tagRelease bug \<and> Status bug \<noteq> ''VERIFIED''
               \<and> fst (verdict c p tagName bug extPRs)
               \<and> (\<exists>comments. GetComments (bzClient c) bugID = Inr comments)
            then [UpdateBug_call (ID bug) \<lparr>BugUpdate_Status = ''VERIFIED''\<rparr>] else [])"
proof (cases "GetBug (bzClient c) bugID")
  case (Inl err)
  then show ?thesis by (simp add: verifyBug_not_fetched calls_addErr calls_issue)
next
  case (Inr bug)
  then show ?thesis
    by (simp add: verifyBug_fetched evaluateBug_updates calls_addErr calls_issue)
qed

lemma verifyBug_update_sound:
  assumes "UpdateBug_call i upd \<in> set (calls (verifyBug c p tagName tagRelease bugID extPRs s))"
  shows "UpdateBug_call i upd \<in> set (calls s)
    \<or> (upd = \<lparr>BugUpdate_Status = ''VERIFIED''\<rparr>
        \<and> (\<exists>bug. GetBug (bzClient c) bugID = Inr bug \<and> ID bug = i \<and> Status bug = ''ON_QA''))"
proof -
  have mem: "UpdateBug_call i upd
      \<in> set (filter isUpdateBug (calls (verifyBug c p tagName tagRelease bugID extPRs s)))"
    using assms by simp
  show ?thesis
  proof (cases "GetBug (bzClient c) bugID")
    case (Inl err)
    then show ?thesis using mem by (simp add: verifyBug_updates)
  next
    case (Inr bug)
    show ?thesis
    proof (cases "fst (verdict c p tagName bug extPRs)")
      case True
      then have "Status bug = ''ON_QA''" by (rule fst_verdict_ON_QA)
      then show ?thesis
        using Inr mem by (auto simp add: verifyBug_updates split: if_splits)
    next
      case False
      then show ?thesis using Inr mem by (simp add: verifyBug_updates)
    qed
  qed
qed

lemma verifyLoop_calls_prefix:
  "\<exists>rest. calls (foldl (\<lambda>s (bugID, extPRs). verifyBug c p tagName tagRelease bugID extPRs s)
             s entries) = calls s @ rest"
proof (induction entries arbitrary: s)
  case Nil
  show ?case by simp
next
  case (Cons e entries)
  obtain bugID extPRs where e: "e = (bugID, extPRs)" by (cases e)
  obtain new where n: "calls (verifyBug c p tagName tagRelease bugID extPRs s) =
      calls s @ GetBug_call bugID # new"
    using verifyBug_calls_start by blast
  obtain rest where "calls (foldl (\<lambda>s (bugID, extPRs). verifyBug c p tagName tagRelease bugID extPRs s)
      (verifyBug c p tagName tagRelease bugID extPRs s) entries) =
      calls (verifyBug c p tagName tagRelease bugID extPRs s) @ rest"
    using Cons.IH by blast
  then show ?case using e n by simp
qed

lemma verifyLoop_fetches_every_bug:
  assumes "(bugID, extPRs) \<in> set entries"
  shows "GetBug_call bugID \<in> set (calls
      (foldl (\<lambda>s (bugID, extPRs). verifyBug c p tagName tagRelease bugID extPRs s) s entries))"
  using assms
proof (induction entries arbitrary: s)
  case Nil
  then show ?case by simp
next
  case (Cons e entries)
  obtain b prs where e: "e = (b, prs)" by (cases e)
  let ?s = "verifyBug c p tagName tagRelease b prs s"
  show ?case
  proof (cases "(bugID, extPRs) = e")
    case True
    obtain new where n: "calls ?s = calls s @ GetBug_call b # new"
      using verifyBug_calls_start by blast
    obtain rest where "calls (foldl (\<lambda>s (bugID, extPRs). verifyBug c p tagName tagRelease bugID extPRs s)
        ?s entries) = calls ?s @ rest"
      using verifyLoop_calls_prefix by blast
    then show ?thesis using True e n by simp
  next
    case False
    then have "(bugID, extPRs) \<in> set entries" using Cons.prems by simp
    then show ?thesis using Cons.IH[of ?s] e by simp
  qed
qed

lemma verifyLoop_update_sound:
  assumes "UpdateBug_call i upd \<in> set (calls
      (foldl (\<lambda>s (bugID, extPRs). verifyBug c p tagName tagRelease bugID extPRs s) s entries))"
  shows "UpdateBug_call i upd \<in> set (calls s)
    \<or> (upd = \<lparr>BugUpdate_Status = ''VERIFIED''\<rparr>
        \<and> (\<exists>bugID bug. GetBug (bzClient c) bugID = Inr bug \<and> ID bug = i \<and> Status bug = ''ON_QA''))"
  using assms
proof (induction entries arbitrary: s)
  case Nil
  then show ?case by simp
next
  case (Cons e entries)
  obtain b prs where e: "e = (b, prs)" by (cases e)
  let ?s = "verifyBug c p tagName tagRelease b prs s"
  have "UpdateBug_call i upd \<in> set (calls ?s)
    \<or> (upd = \<lparr>BugUpdate_Status = ''VERIFIED''\<rparr>
        \<and> (\<exists>bugID bug. GetBug (bzClient c) bugID = Inr bug \<and> ID bug = i \<and> Status bug = ''ON_QA''))"
    using Cons.IH[of ?s] Cons.prems e by simp
  then show ?case using verifyBug_update_sound[of i upd c p tagName tagRelease b prs s] by blast
qed

lemma VerifyBugs_parsed:
  assumes "SemverParseTolerant p tagName = Inr tagSemVer"
  shows "VerifyBugs c p bugs tagName =
     foldl (\<lambda>s (bugID, extPRs). verifyBug c p tagName (SemverToMajorMinor p tagSemVer) bugID extPRs s)
       (snd (getPRs bugs (bzClient c) p)) (rangeMap p (fst (getPRs bugs (bzClient c) p)))"
  using assms by (simp add: VerifyBugs_def split: prod.splits)

lemma demo_run_approved:
  "VerifyBugs (demo (demo_bug ''ON_QA'') (Inr []) (Inr [\<lparr>Label_Name = ''qe-approved''\<rparr>]))
     demo_pkgs [500, 7] ''4.14.3'' =
   \<lparr>errs = [''Failed to get external bugs for bugzilla bug 500: timeout'',
            ''Failed to comment on bug 7: read only''],
    calls = [GetExternalBugPRsOnBug_call 500, GetExternalBugPRsOnBug_call 7, GetBug_call 7,
             GetIssueLabels_call ''org'' ''repo'' 5, GetComments_call 7,
             CreateComment_call \<lparr>CommentCreate_ID = 7,
               CommentCreate_Comment = ''Bugfix included in accepted release 4.14.3\<newline>All linked GitHub PRs have been approved by a QA contact; updating bug status to VERIFIED'',
               IsPrivate = True\<rparr>,
             UpdateBug_call 7 \<lparr>BugUpdate_Status = ''VERIFIED''\<rparr>]\<rparr>"
  by (simp add: VerifyBugs_def getPRs_def verifyBug_def evaluateBug_def decide_def
        composeMessage_def postComment_def transition_def issue_def addErr_def
        demo_def demo_bz_def demo_bug_def demo_pkgs_def fmt_d_7 fmt_d_500)

text \<open>
  C3. Every update of a bug that a run of \<open>VerifyBugs\<close> issues, whatever the bug list,
  the tag and the answers of the clients, sets the status \<open>VERIFIED\<close> and goes to the
  ID of a bug record that the tracker returned in status \<open>ON_QA\<close>. The calls of a run
  are only ever appended to, so this holds at every point of the run.
\<close>

theorem only_update_is_ON_QA_to_VERIFIED:
  assumes "UpdateBug_call i upd \<in> set (calls (VerifyBugs c p bugs tagName))"
  shows "upd = \<lparr>BugUpdate_Status = ''VERIFIED''\<rparr>
    \<and> (\<exists>bugID bug. GetBug (bzClient c) bugID = Inr bug \<and> ID bug = i \<and> Status bug = ''ON_QA'')"
proof (cases "SemverParseTolerant p tagName")
  case (Inl err)
  then show ?thesis using assms by (simp add: VerifyBugs_def)
next
  case (Inr tagSemVer)
  have "UpdateBug_call i upd \<notin> set (calls (snd (getPRs bugs (bzClient c) p)))"
    by (auto simp add: getPRs_eq)
  then show ?thesis
    using assms verifyLoop_update_sound[of i upd c p tagName "SemverToMajorMinor p tagSemVer"
        "snd (getPRs bugs (bzClient c) p)" "rangeMap p (fst (getPRs bugs (bzClient c) p))"]
    unfolding VerifyBugs_parsed[OF Inr] by blast
qed

theorem only_update_is_ON_QA_to_VERIFIED_witness:
  "UpdateBug_call 7 \<lparr>BugUpdate_Status = ''VERIFIED''\<rparr>
     \<in> set (calls (VerifyBugs (demo (demo_bug ''ON_QA'') (Inr []) (Inr [\<lparr>Label_Name = ''qe-approved''\<rparr>]))
                     demo_pkgs [500, 7] ''4.14.3''))
   \<and> (\<exists>bugID bug.
         GetBug (bzClient (demo (demo_bug ''ON_QA'') (Inr []) (Inr [\<lparr>Label_Name = ''qe-approved''\<rparr>]))) bugID
           = Inr bug
         \<and> ID bug = 7 \<and> Status bug = ''ON_QA'')"
proof -
  have issued: "UpdateBug_call 7 \<lparr>BugUpdate_Status = ''VERIFIED''\<rparr>
     \<in> set (calls (VerifyBugs (demo (demo_bug ''ON_QA'') (Inr []) (Inr [\<lparr>Label_Name = ''qe-approved''\<rparr>]))
                     demo_pkgs [500, 7] ''4.14.3''))"
    by (simp add: demo_run_approved)
  show ?thesis
    using issued only_update_is_ON_QA_to_VERIFIED[OF issued] by blast
qed

text \<open>
  C5. When the tag cannot be parsed, \<open>VerifyBugs\<close> returns the one error of line 49
  and has issued no call to either client. When the tag can be parsed nothing stops the
  batch: the links of every bug of the list are fetched, and every entry of the map
  that the loop visits has its bug fetched, whatever the clients answer.
\<close>

theorem unparsable_tag_aborts_batch:
  "(\<forall>err. SemverParseTolerant p tagName = Inl err \<longrightarrow>
      VerifyBugs c p bugs tagName =
        \<lparr>errs = [''failed to parse tag `'' @ tagName @ ''` semver: '' @ Error p err], calls = []\<rparr>)
   \<and> (\<forall>tagSemVer. SemverParseTolerant p tagName = Inr tagSemVer \<longrightarrow>
        (\<exists>rest. calls (VerifyBugs c p bugs tagName) = map GetExternalBugPRsOnBug_call bugs @ rest)
        \<and> (\<forall>(bugID, extPRs) \<in> set (rangeMap p (fst (getPRs bugs (bzClient c) p))).
              GetBug_call bugID \<in> set (calls (VerifyBugs c p bugs tagName))))"
proof -
  have 1: "VerifyBugs c p bugs tagName =
        \<lparr>errs = [''failed to parse tag `'' @ tagName @ ''` semver: '' @ Error p err], calls = []\<rparr>"
    if "SemverParseTolerant p tagName = Inl err" for err
    using that by (simp add: VerifyBugs_def)
  have 2: "\<exists>rest. calls (VerifyBugs c p bugs tagName) = map GetExternalBugPRsOnBug_call bugs @ rest"
    if parsed: "SemverParseTolerant p tagName = Inr tagSemVer" for tagSemVer
    using verifyLoop_calls_prefix[of c p tagName "SemverToMajorMinor p tagSemVer"
        "snd (getPRs bugs (bzClient c) p)" "rangeMap p (fst (getPRs bugs (bzClient c) p))"]
    unfolding VerifyBugs_parsed[OF parsed] by (simp add: getPRs_eq)
  have 3: "GetBug_call bugID \<in> set (calls (VerifyBugs c p bugs tagName))"
    if parsed: "SemverParseTolerant p tagName = Inr tagSemVer"
      and "(bugID, extPRs) \<in> set (rangeMap p (fst (getPRs bugs (bzClient c) p)))"
    for tagSemVer bugID extPRs
    unfolding VerifyBugs_parsed[OF parsed] using that(2) by (rule verifyLoop_fetches_every_bug)
  show ?thesis using 1 2 3 by blast
qed

theorem unparsable_tag_aborts_batch_witness:
  "SemverParseTolerant demo_pkgs ''not-a-semver'' = Inl ''no version''
   \<and> VerifyBugs (demo (demo_bug ''ON_QA'') (Inr []) (Inr [\<lparr>Label_Name = ''qe-approved''\<rparr>]))
        demo_pkgs [500, 7] ''not-a-semver'' =
       \<lparr>errs = [''failed to parse tag `not-a-semver` semver: no version''], calls = []\<rparr>
   \<and> SemverParseTolerant demo_pkgs ''4.14.3'' = Inr ''4.14''
   \<and> take 2 (calls (VerifyBugs (demo (demo_bug ''ON_QA'') (Inr []) (Inr [\<lparr>Label_Name = ''qe-approved''\<rparr>]))
                demo_pkgs [500, 7] ''4.14.3'')) =
       [GetExternalBugPRsOnBug_call 500, GetExternalBugPRsOnBug_call 7]
   \<and> GetBug_call 7 \<in> set (calls (VerifyBugs
         (demo (demo_bug ''ON_QA'') (Inr []) (Inr [\<lparr>Label_Name = ''qe-approved''\<rparr>]))
         demo_pkgs [500, 7] ''4.14.3''))"
proof -
  have bad: "SemverParseTolerant demo_pkgs ''not-a-semver'' = Inl ''no version''"
    by (simp add: demo_pkgs_def)
  have good: "SemverParseTolerant demo_pkgs ''4.14.3'' = Inr ''4.14''"
    by (simp add: demo_pkgs_def)
  have msg: "Error demo_pkgs ''no version'' = ''no version''"
    by (simp add: demo_pkgs_def)
  have aborted: "VerifyBugs (demo (demo_bug ''ON_QA'') (Inr []) (Inr [\<lparr>Label_Name = ''qe-approved''\<rparr>]))
        demo_pkgs [500, 7] ''not-a-semver'' =
       \<lparr>errs = [''failed to parse tag `not-a-semver` semver: no version''], calls = []\<rparr>"
    using unparsable_tag_aborts_batch[of demo_pkgs "''not-a-semver''"
        "demo (demo_bug ''ON_QA'') (Inr []) (Inr [\<lparr>Label_Name = ''qe-approved''\<rparr>])" "[500, 7]"]
      bad msg
    by simp
  show ?thesis
    using bad good aborted by (simp add: demo_run_approved)
qed

text \<open>
  C6. A bug that the tracker returns in status \<open>VERIFIED\<close>, its first target release
  having the release of the tag as its first two pieces: the iteration of the loop
  issues the fetch of the bug and nothing else (no fetch of comments, no comment, no
  update), adds no error, and hands the run on to the next iteration.
\<close>

theorem verified_bug_left_alone:
  assumes fetched: "GetBug (bzClient c) bugID = Inr bug"
    and verified: "Status bug = ''VERIFIED''"
    and target: "TargetRelease bug = target # others"
    and split: "strings_Split target CHR ''.'' = major # minor # rest"
    and release: "major @ ''.'' @ minor = tagRelease"
  shows "verifyBug c p tagName tagRelease bugID extPRs s = s\<lparr>calls := calls s @ [GetBug_call bugID]\<rparr>"
proof -
  have "applicable tagRelease bug"
    using target split release by (rule applicableI)
  then show ?thesis
    using verified
    by (simp add: verifyBug_fetched[OF fetched] evaluateBug_def decide_VERIFIED issue_def)
qed

theorem verified_bug_left_alone_witness:
  "GetBug (bzClient (demo (demo_bug ''VERIFIED'') (Inr []) (Inr []))) 7 = Inr (demo_bug ''VERIFIED'')
   \<and> Status (demo_bug ''VERIFIED'') = ''VERIFIED''
   \<and> TargetRelease (demo_bug ''VERIFIED'') = [''4.14.0'']
   \<and> strings_Split ''4.14.0'' CHR ''.'' = [''4'', ''14'', ''0'']
   \<and> verifyBug (demo (demo_bug ''VERIFIED'') (Inr []) (Inr [])) demo_pkgs ''4.14.3'' ''4.14'' 7
        [demo_pr] start = \<lparr>errs = [], calls = [GetBug_call 7]\<rparr>
   \<and> VerifyBugs (demo (demo_bug ''VERIFIED'') (Inr []) (Inr [])) demo_pkgs [7] ''4.14.3'' =
       \<lparr>errs = [], calls = [GetExternalBugPRsOnBug_call 7, GetBug_call 7]\<rparr>"
proof -
  have run: "VerifyBugs (demo (demo_bug ''VERIFIED'') (Inr []) (Inr [])) demo_pkgs [7] ''4.14.3'' =
       \<lparr>errs = [], calls = [GetExternalBugPRsOnBug_call 7, GetBug_call 7]\<rparr>"
    by (simp add: VerifyBugs_def getPRs_def verifyBug_def evaluateBug_def decide_def
          issue_def addErr_def demo_def demo_bz_def demo_bug_def demo_pkgs_def)
  show ?thesis
    using run verified_bug_left_alone[of "demo (demo_bug ''VERIFIED'') (Inr []) (Inr [])" 7
        "demo_bug ''VERIFIED''" "''4.14.0''" "[]" "''4''" "''14''" "[''0'']" "''4.14''"
        demo_pkgs "''4.14.3''" "[demo_pr]" start]
    by (simp add: demo_def demo_bz_def demo_bug_def start_def)
qed

lemma verdict_ghClient:
  assumes "ghClient c' = ghClient c"
  shows "verdict c' p tagName bug extPRs = verdict c p tagName bug extPRs"
proof -
  have "unlabeled c' = unlabeled c"
    using assms by (simp add: fun_eq_iff unlabeled_def)
  moreover have "labelErrs c' p = labelErrs c p"
    using assms by (simp add: fun_eq_iff labelErrs_def)
  ultimately show ?thesis by (simp add: verdict_def)
qed

lemma verifyBug_calls:
  assumes "GetBug (bzClient c) bugID = Inr bug"
  shows "calls (verifyBug c p tagName tagRelease bugID extPRs s) =
     calls s @ GetBug_call bugID #
       (if applicable tagRelease bug \<and> Status bug \<noteq> ''VERIFIED'' then
          (if Status bug = ''ON_QA'' then map labelCall extPRs else [])
          @ GetComments_call bugID
          # (case GetComments (bzClient c) bugID of
               Inl err \<Rightarrow> []
             | Inr comments \<Rightarrow>
                 (if alreadyCommented comments (snd (verdict c p tagName bug extPRs)) then []
                  else [CreateComment_call \<lparr>CommentCreate_ID = bugID,
                          CommentCreate_Comment = snd (verdict c p tagName bug extPRs), IsPrivate = True\<rparr>])
                 @ (if fst (verdict c p tagName bug extPRs)
                    then [UpdateBug_call (ID bug) \<lparr>BugUpdate_Status = ''VERIFIED''\<rparr>] else []))
        else [])"
  by (simp add: verifyBug_fetched[OF assms] evaluateBug_calls calls_addErr calls_issue)

lemma verifyBug_creates:
  assumes "GetBug (bzClient c) bugID = Inr bug"
  shows "filter isCreateComment (calls (verifyBug c p tagName tagRelease bugID extPRs s)) =
     filter isCreateComment (calls s) @
       (if applicable tagRelease bug \<and> Status bug \<noteq> ''VERIFIED''
           \<and> (\<exists>comments. GetComments (bzClient c) bugID = Inr comments
                 \<and> \<not> alreadyCommented comments (snd (verdict c p tagName bug extPRs)))
        then [CreateComment_call \<lparr>CommentCreate_ID = bugID,
                CommentCreate_Comment = snd (verdict c p tagName bug extPRs), IsPrivate = True\<rparr>]
        else [])"
  by (cases "GetComments (bzClient c) bugID")
     (simp_all add: verifyBug_calls[OF assms] filter_isCreateComment_labelCall)

lemma comments_fetched_iff:
  assumes fetched: "GetBug (bzClient c) bugID = Inr bug"
    and run: "calls (verifyBug c p tagName tagRelease bugID extPRs s) = calls s @ new"
  shows "GetComments_call bugID \<in> set new \<longleftrightarrow> applicable tagRelease bug \<and> Status bug \<noteq> ''VERIFIED''"
proof -
  have "new = GetBug_call bugID #
       (if applicable tagRelease bug \<and> Status bug \<noteq> ''VERIFIED'' then
          (if Status bug = ''ON_QA'' then map labelCall extPRs else [])
          @ GetComments_call bugID
          # (case GetComments (bzClient c) bugID of
               Inl err \<Rightarrow> []
             | Inr comments \<Rightarrow>
                 (if alreadyCommented comments (snd (verdict c p tagName bug extPRs)) then []
                  else [CreateComment_call \<lparr>CommentCreate_ID = bugID,
                          CommentCreate_Comment = snd (verdict c p tagName bug extPRs), IsPrivate = True\<rparr>])
                 @ (if fst (verdict c p tagName bug extPRs)
                    then [UpdateBug_call (ID bug) \<lparr>BugUpdate_Status = ''VERIFIED''\<rparr>] else []))
        else [])"
    using run unfolding verifyBug_calls[OF fetched] by simp
  then show ?thesis by simp
qed

text \<open>
  C4. In the iteration of a bug that the tracker returns, with \<open>new\<close> the calls the
  iteration issues: the comments of the bug are fetched exactly when the bug passes
  the release checks and is not yet \<open>VERIFIED\<close>. When they are fetched, a message was
  composed, and the iteration creates no comment if the fetched list holds a comment
  with that text by one of the two robot accounts, and otherwise creates one comment,
  private, on this bug, with that text. Hence an iteration over the same bug and the
  same labels that finds such a comment in the list (as after a first run whose comment
  the tracker recorded under a robot account) creates none. When the comments are not
  fetched no comment is created.
\<close>

theorem comment_posted_once_unless_present:
  assumes fetched: "GetBug (bzClient c) bugID = Inr bug"
    and comments: "GetComments (bzClient c) bugID = Inr comments"
    and run: "calls (verifyBug c p tagName tagRelease bugID extPRs s) = calls s @ new"
  shows "(GetComments_call bugID \<in> set new \<longleftrightarrow>
            applicable tagRelease bug \<and> Status bug \<noteq> ''VERIFIED'')
    \<and> (GetComments_call bugID \<notin> set new \<longrightarrow> filter isCreateComment new = [])
    \<and> (GetComments_call bugID \<in> set new \<longrightarrow>
         (\<exists>success message.
            fst (decide c p tagName bug extPRs (issue (GetBug_call bugID) s)) = Some (success, message)
            \<and> filter isCreateComment new =
                (if \<exists>cm \<in> set comments. Text cm = message
                      \<and> (Creator cm = ''openshift-bugzilla-robot''
                         \<or> Creator cm = ''openshift-bugzilla-robot@redhat.com'')
                 then []
                 else [CreateComment_call
                         \<lparr>CommentCreate_ID = bugID, CommentCreate_Comment = message, IsPrivate = True\<rparr>])
            \<and> (\<forall>c' comments' s' new'.
                  ghClient c' = ghClient c
                  \<and> GetBug (bzClient c') bugID = Inr bug
                  \<and> GetComments (bzClient c') bugID = Inr comments'
                  \<and> (\<exists>cm \<in> set comments'. Text cm = message
                        \<and> (Creator cm = ''openshift-bugzilla-robot''
                           \<or> Creator cm = ''openshift-bugzilla-robot@redhat.com''))
                  \<and> calls (verifyBug c' p tagName tagRelease bugID extPRs s') = calls s' @ new'
                  \<longrightarrow> filter isCreateComment new' = [])))"
proof -
  have asked: "GetComments_call bugID \<in> set new \<longleftrightarrow>
      applicable tagRelease bug \<and> Status bug \<noteq> ''VERIFIED''"
    using fetched run by (rule comments_fetched_iff)
  have creates: "filter isCreateComment new =
      (if applicable tagRelease bug \<and> Status bug \<noteq> ''VERIFIED''
           \<and> \<not> alreadyCommented comments (snd (verdict c p tagName bug extPRs))
       then [CreateComment_call \<lparr>CommentCreate_ID = bugID,
               CommentCreate_Comment = snd (verdict c p tagName bug extPRs), IsPrivate = True\<rparr>]
       else [])"
    using verifyBug_creates[OF fetched, of p tagName tagRelease extPRs s] run comments by simp
  have none: "filter isCreateComment new = []" if "GetComments_call bugID \<notin> set new"
    using that asked creates by simp
  have some: "\<exists>success message.
      fst (decide c p tagName bug extPRs (issue (GetBug_call bugID) s)) = Some (success, message)
      \<and> filter isCreateComment new =
          (if \<exists>cm \<in> set comments. Text cm = message
                \<and> (Creator cm = ''openshift-bugzilla-robot''
                   \<or> Creator cm = ''openshift-bugzilla-robot@redhat.com'')
           then []
           else [CreateComment_call
                   \<lparr>CommentCreate_ID = bugID, CommentCreate_Comment = message, IsPrivate = True\<rparr>])
      \<and> (\<forall>c' comments' s' new'.
            ghClient c' = ghClient c
            \<and> GetBug (bzClient c') bugID = Inr bug
            \<and> GetComments (bzClient c') bugID = Inr comments'
            \<and> (\<exists>cm \<in> set comments'. Text cm = message
                  \<and> (Creator cm = ''openshift-bugzilla-robot''
                     \<or> Creator cm = ''openshift-bugzilla-robot@redhat.com''))
            \<and> calls (verifyBug c' p tagName tagRelease bugID extPRs s') = calls s' @ new'
            \<longrightarrow> filter isCreateComment new' = [])"
    if "GetComments_call bugID \<in> set new"
  proof -
    obtain success message where v: "verdict c p tagName bug extPRs = (success, message)"
      by (cases "verdict c p tagName bug extPRs")
    have app: "applicable tagRelease bug" and nv: "Status bug \<noteq> ''VERIFIED''"
      using that asked by simp_all
    have d: "fst (decide c p tagName bug extPRs (issue (GetBug_call bugID) s)) = Some (success, message)"
      using nv v by (simp add: fst_decide)
    have first: "filter isCreateComment new =
          (if \<exists>cm \<in> set comments. Text cm = message
                \<and> (Creator cm = ''openshift-bugzilla-robot''
                   \<or> Creator cm = ''openshift-bugzilla-robot@redhat.com'')
           then []
           else [CreateComment_call
                   \<lparr>CommentCreate_ID = bugID, CommentCreate_Comment = message, IsPrivate = True\<rparr>])"
      using creates app nv v by (simp add: alreadyCommented_iff)
    have second: "filter isCreateComment new' = []"
      if gh: "ghClient c' = ghClient c"
        and b: "GetBug (bzClient c') bugID = Inr bug"
        and cs: "GetComments (bzClient c') bugID = Inr comments'"
        and present: "\<exists>cm \<in> set comments'. Text cm = message
            \<and> (Creator cm = ''openshift-bugzilla-robot''
               \<or> Creator cm = ''openshift-bugzilla-robot@redhat.com'')"
        and run': "calls (verifyBug c' p tagName tagRelease bugID extPRs s') = calls s' @ new'"
      for c' comments' s' new'
    proof -
      have "snd (verdict c' p tagName bug extPRs) = message"
        by (simp add: verdict_ghClient[OF gh] v)
      moreover have "alreadyCommented comments' message"
        using present by (simp add: alreadyCommented_iff)
      ultimately show ?thesis
        using verifyBug_creates[OF b, of p tagName tagRelease extPRs s'] run' cs by simp
    qed
    show ?thesis using d first second by blast
  qed
  show ?thesis using asked none some by blast
qed

lemma fmt_d_5: "fmt_d 5 = ''5''"
  by code_simp

lemma demo_verdict_unapproved:
  "verdict (demo (demo_bug ''ON_QA'') comments (Inr [\<lparr>Label_Name = ''lgtm''\<rparr>])) demo_pkgs ''4.14.3''
     (demo_bug ''ON_QA'') [demo_pr] =
   (False, ''Bugfix included in accepted release 4.14.3\<newline>Bug will not be automatically moved to VERIFIED for the following reasons:\<newline>- PR org/repo#5 not approved by QA contact\<newline>\<newline>This bug must now be manually moved to VERIFIED by Quinn'')"
  by (simp add: verdict_def unlabeled_def labelErrs_def composeMessage_def notApprovedLine_def
        demo_def demo_bug_def demo_pr_def fmt_d_5)

lemma demo_applicable: "applicable ''4.14'' (demo_bug status)"
  by (simp add: applicable_def demo_bug_def)

theorem comment_posted_once_unless_present_witness:
  "GetBug (bzClient (demo (demo_bug ''ON_QA'') (Inr []) (Inr [\<lparr>Label_Name = ''lgtm''\<rparr>]))) 7
     = Inr (demo_bug ''ON_QA'')
   \<and> GetComments (bzClient (demo (demo_bug ''ON_QA'') (Inr []) (Inr [\<lparr>Label_Name = ''lgtm''\<rparr>]))) 7
     = Inr []
   \<and> calls (verifyBug (demo (demo_bug ''ON_QA'') (Inr []) (Inr [\<lparr>Label_Name = ''lgtm''\<rparr>]))
         demo_pkgs ''4.14.3'' ''4.14'' 7 [demo_pr] start) =
       calls start @
       [GetBug_call 7, GetIssueLabels_call ''org'' ''repo'' 5, GetComments_call 7,
        CreateComment_call \<lparr>CommentCreate_ID = 7,
          CommentCreate_Comment = ''Bugfix included in accepted release 4.14.3\<newline>Bug will not be automatically moved to VERIFIED for the following reasons:\<newline>- PR org/repo#5 not approved by QA contact\<newline>\<newline>This bug must now be manually moved to VERIFIED by Quinn'',
          IsPrivate = True\<rparr>]
   \<and> filter isCreateComment (calls (verifyBug
         (demo (demo_bug ''ON_QA'')
            (Inr [\<lparr>Text = ''Bugfix included in accepted release 4.14.3\<newline>Bug will not be automatically moved to VERIFIED for the following reasons:\<newline>- PR org/repo#5 not approved by QA contact\<newline>\<newline>This bug must now be manually moved to VERIFIED by Quinn'',
                   Creator = ''openshift-bugzilla-robot@redhat.com''\<rparr>])
            (Inr [\<lparr>Label_Name = ''lgtm''\<rparr>]))
         demo_pkgs ''4.14.3'' ''4.14'' 7 [demo_pr] start)) = []"
proof -
  let ?c = "demo (demo_bug ''ON_QA'') (Inr []) (Inr [\<lparr>Label_Name = ''lgtm''\<rparr>])"
  let ?M = "''Bugfix included in accepted release 4.14.3\<newline>Bug will not be automatically moved to VERIFIED for the following reasons:\<newline>- PR org/repo#5 not approved by QA contact\<newline>\<newline>This bug must now be manually moved to VERIFIED by Quinn''"
  let ?c' = "demo (demo_bug ''ON_QA'')
      (Inr [\<lparr>Text = ?M, Creator = ''openshift-bugzilla-robot@redhat.com''\<rparr>])
      (Inr [\<lparr>Label_Name = ''lgtm''\<rparr>])"
  let ?new = "[GetBug_call 7, GetIssueLabels_call ''org'' ''repo'' 5, GetComments_call 7,
        CreateComment_call \<lparr>CommentCreate_ID = 7, CommentCreate_Comment = ?M, IsPrivate = True\<rparr>]"
  have fetched: "GetBug (bzClient ?c) 7 = Inr (demo_bug ''ON_QA'')"
    by (simp add: demo_def demo_bz_def demo_bug_def)
  have comments: "GetComments (bzClient ?c) 7 = Inr []"
    by (simp add: demo_def demo_bz_def)
  have st: "Status (demo_bug ''ON_QA'') = ''ON_QA''"
    by (simp add: demo_bug_def)
  have lc: "labelCall demo_pr = GetIssueLabels_call ''org'' ''repo'' 5"
    by (simp add: labelCall_def demo_pr_def)
  have run: "calls (verifyBug ?c demo_pkgs ''4.14.3'' ''4.14'' 7 [demo_pr] start) = calls start @ ?new"
    by (simp add: verifyBug_calls[OF fetched] demo_applicable demo_verdict_unapproved st comments lc)
  have asked: "GetComments_call 7 \<in> set ?new"
    by simp
  have d: "fst (decide ?c demo_pkgs ''4.14.3'' (demo_bug ''ON_QA'') [demo_pr] (issue (GetBug_call 7) start))
      = Some (False, ?M)"
    by (simp add: fst_decide st demo_verdict_unapproved)
  have again: "\<forall>c' comments' s' new'.
      ghClient c' = ghClient ?c
      \<and> GetBug (bzClient c') 7 = Inr (demo_bug ''ON_QA'')
      \<and> GetComments (bzClient c') 7 = Inr comments'
      \<and> (\<exists>cm \<in> set comments'. Text cm = ?M
            \<and> (Creator cm = ''openshift-bugzilla-robot''
               \<or> Creator cm = ''openshift-bugzilla-robot@redhat.com''))
      \<and> calls (verifyBug c' demo_pkgs ''4.14.3'' ''4.14'' 7 [demo_pr] s') = calls s' @ new'
      \<longrightarrow> filter isCreateComment new' = []"
    using comment_posted_once_unless_present[OF fetched comments run] asked d by auto
  have gh: "ghClient ?c' = ghClient ?c"
    by (simp add: demo_def)
  have fetched': "GetBug (bzClient ?c') 7 = Inr (demo_bug ''ON_QA'')"
    by (simp add: demo_def demo_bz_def demo_bug_def)
  have comments': "GetComments (bzClient ?c') 7
      = Inr [\<lparr>Text = ?M, Creator = ''openshift-bugzilla-robot@redhat.com''\<rparr>]"
    by (simp add: demo_def demo_bz_def)
  have run': "calls (verifyBug ?c' demo_pkgs ''4.14.3'' ''4.14'' 7 [demo_pr] start) =
      calls start @ calls (verifyBug ?c' demo_pkgs ''4.14.3'' ''4.14'' 7 [demo_pr] start)"
    by (simp add: start_def)
  have "filter isCreateComment (calls (verifyBug ?c' demo_pkgs ''4.14.3'' ''4.14'' 7 [demo_pr] start)) = []"
    using again gh fetched' comments' run' by (elim allE impE) auto
  then show ?thesis using fetched comments run by simp
qed






lemma VerifyBugs_runs_verifyBug:
  assumes parsed: "SemverParseTolerant p tagName = Inr tagSemVer"
    and visited: "(bugID, extPRs) \<in> set (rangeMap p (fst (getPRs bugs (bzClient c) p)))"
  shows "\<exists>s rest. calls (VerifyBugs c p bugs tagName) =
      calls (verifyBug c p tagName (SemverToMajorMinor p tagSemVer) bugID extPRs s) @ rest"
proof -
  let ?f = "\<lambda>s (bugID, extPRs). verifyBug c p tagName (SemverToMajorMinor p tagSemVer) bugID extPRs s"
  obtain before after where
    split: "rangeMap p (fst (getPRs bugs (bzClient c) p)) = before @ (bugID, extPRs) # after"
    using visited by (meson split_list)
  let ?s = "foldl ?f (snd (getPRs bugs (bzClient c) p)) before"
  have "VerifyBugs c p bugs tagName =
      foldl ?f (verifyBug c p tagName (SemverToMajorMinor p tagSemVer) bugID extPRs ?s) after"
    unfolding VerifyBugs_parsed[OF parsed] split by simp
  moreover obtain rest where
    "calls (foldl ?f (verifyBug c p tagName (SemverToMajorMinor p tagSemVer) bugID extPRs ?s) after) =
      calls (verifyBug c p tagName (SemverToMajorMinor p tagSemVer) bugID extPRs ?s) @ rest"
    using verifyLoop_calls_prefix by blast
  ultimately show ?thesis by metis
qed

text \<open>
  C1, as amended. A bug that the tracker returns in status \<open>ON_QA\<close>, whose first
  target release has the release of the tag as its first two pieces, every label fetch
  of its pull requests and the fetch of its comments succeeding: the outcome \<open>success\<close>
  holds exactly when the labels of every linked pull request hold \<open>qe-approved\<close>; on
  success the iteration of the loop issues one update, of this bug to \<open>VERIFIED\<close>, the
  message is the base line followed by the line that announces the transition, and
  the update is among the calls of every run of \<open>VerifyBugs\<close> whose loop visits the
  bug under a tag of this release.
\<close>

theorem release_onqa_success_iff_all_approved:
  assumes fetched: "GetBug (bzClient c) bugID = Inr bug"
    and onqa: "Status bug = ''ON_QA''"
    and target: "TargetRelease bug = target # others"
    and split: "strings_Split target CHR ''.'' = major # minor # rest"
    and release: "major @ ''.'' @ minor = tagRelease"
    and labels: "\<forall>extPR \<in> set extPRs. \<exists>labels.
      GetIssueLabels (ghClient c) (org extPR) (repo extPR) (prNum extPR) = Inr labels"
    and comments: "GetComments (bzClient c) bugID = Inr comments"
  shows "\<exists>success message s'.
      decide c p tagName bug extPRs (issue (GetBug_call bugID) s) = (Some (success, message), s')
      \<and> (success \<longleftrightarrow>
           (\<forall>extPR \<in> set extPRs. \<exists>labels.
              GetIssueLabels (ghClient c) (org extPR) (repo extPR) (prNum extPR) = Inr labels
              \<and> ''qe-approved'' \<in> set (map Label_Name labels)))
      \<and> (success \<longrightarrow>
           filter isUpdateBug (calls (verifyBug c p tagName tagRelease bugID extPRs s)) =
             filter isUpdateBug (calls s) @ [UpdateBug_call (ID bug) \<lparr>BugUpdate_Status = ''VERIFIED''\<rparr>]
           \<and> message = ''Bugfix included in accepted release '' @ tagName
               @ ''\<newline>All linked GitHub PRs have been approved by a QA contact; updating bug status to VERIFIED''
           \<and> (\<forall>bugs tagSemVer.
                 SemverParseTolerant p tagName = Inr tagSemVer
                 \<and> SemverToMajorMinor p tagSemVer = tagRelease
                 \<and> (bugID, extPRs) \<in> set (rangeMap p (fst (getPRs bugs (bzClient c) p)))
                 \<longrightarrow> UpdateBug_call (ID bug) \<lparr>BugUpdate_Status = ''VERIFIED''\<rparr>
                       \<in> set (calls (VerifyBugs c p bugs tagName))))"
proof -
  let ?U = "filter (unlabeled c) extPRs"
  let ?s = "issue (GetBug_call bugID) s"
  have app: "applicable tagRelease bug"
    using target split release by (rule applicableI)
  have vb: "verifyBug c p tagName tagRelease bugID extPRs s =
      evaluateBug c p tagName bugID bug extPRs ?s"
    by (simp add: verifyBug_fetched[OF fetched] app)
  have E: "concat (map (labelErrs c p) extPRs) = []"
    using labels by (rule labelErrs_all_fetched)
  have v: "verdict c p tagName bug extPRs = composeMessage tagName bug ?U []"
    unfolding verdict_def E using onqa by simp
  obtain success message where sm: "composeMessage tagName bug ?U [] = (success, message)"
    by (cases "composeMessage tagName bug ?U []")
  have d: "decide c p tagName bug extPRs ?s =
      (Some (success, message),
       ?s\<lparr>errs := errs ?s @ concat (map (labelErrs c p) extPRs),
         calls := calls ?s @ map labelCall extPRs\<rparr>)"
    using decide_ON_QA[OF onqa, of c p tagName extPRs ?s] v sm by simp
  have s1: "success \<longleftrightarrow> ?U = []"
    using fst_composeMessage[of tagName bug ?U "[]"] sm by simp
  have s2: "?U = [] \<longleftrightarrow>
      (\<forall>extPR \<in> set extPRs. \<exists>labels.
          GetIssueLabels (ghClient c) (org extPR) (repo extPR) (prNum extPR) = Inr labels
          \<and> ''qe-approved'' \<in> set (map Label_Name labels))"
    using labels by (fastforce simp add: filter_empty_conv unlabeled_def split: sum.splits)
  have s3: "filter isUpdateBug (calls (verifyBug c p tagName tagRelease bugID extPRs s0)) =
      filter isUpdateBug (calls s0) @ [UpdateBug_call (ID bug) \<lparr>BugUpdate_Status = ''VERIFIED''\<rparr>]"
    if "success" for s0
    using that onqa comments v sm app
    by (simp add: verifyBug_updates fetched)
  have s5: "UpdateBug_call (ID bug) \<lparr>BugUpdate_Status = ''VERIFIED''\<rparr>
      \<in> set (calls (VerifyBugs c p bugs tagName))"
    if "success" and parsed: "SemverParseTolerant p tagName = Inr tagSemVer"
      and rel: "SemverToMajorMinor p tagSemVer = tagRelease"
      and visited: "(bugID, extPRs) \<in> set (rangeMap p (fst (getPRs bugs (bzClient c) p)))"
    for bugs tagSemVer
  proof -
    obtain s0 rest where r: "calls (VerifyBugs c p bugs tagName) =
        calls (verifyBug c p tagName tagRelease bugID extPRs s0) @ rest"
      using VerifyBugs_runs_verifyBug[OF parsed visited] rel by auto
    have "UpdateBug_call (ID bug) \<lparr>BugUpdate_Status = ''VERIFIED''\<rparr>
        \<in> set (filter isUpdateBug (calls (verifyBug c p tagName tagRelease bugID extPRs s0)))"
      unfolding s3[OF that(1)] by simp
    then show ?thesis unfolding r by simp
  qed
  have s4: "message = ''Bugfix included in accepted release '' @ tagName
      @ ''\<newline>All linked GitHub PRs have been approved by a QA contact; updating bug status to VERIFIED''"
    if "success"
    using that s1 sm by (simp add: composeMessage_success)
  show ?thesis using d s1 s2 s3[of s] s4 s5 by blast
qed

theorem release_onqa_success_iff_all_approved_witness:
  "GetBug (bzClient (demo (demo_bug ''ON_QA'') (Inr []) (Inr [\<lparr>Label_Name = ''qe-approved''\<rparr>]))) 7
     = Inr (demo_bug ''ON_QA'')
   \<and> Status (demo_bug ''ON_QA'') = ''ON_QA''
   \<and> TargetRelease (demo_bug ''ON_QA'') = [''4.14.0'']
   \<and> strings_Split ''4.14.0'' CHR ''.'' = [''4'', ''14'', ''0'']
   \<and> GetIssueLabels (ghClient (demo (demo_bug ''ON_QA'') (Inr []) (Inr [\<lparr>Label_Name = ''qe-approved''\<rparr>])))
        (org demo_pr) (repo demo_pr) (prNum demo_pr) = Inr [\<lparr>Label_Name = ''qe-approved''\<rparr>]
   \<and> GetComments (bzClient (demo (demo_bug ''ON_QA'') (Inr []) (Inr [\<lparr>Label_Name = ''qe-approved''\<rparr>]))) 7 = Inr []
   \<and> fst (decide (demo (demo_bug ''ON_QA'') (Inr []) (Inr [\<lparr>Label_Name = ''qe-approved''\<rparr>]))
            demo_pkgs ''4.14.3'' (demo_bug ''ON_QA'') [demo_pr] (issue (GetBug_call 7) start)) =
       Some (True, ''Bugfix included in accepted release 4.14.3\<newline>All linked GitHub PRs have been approved by a QA contact; updating bug status to VERIFIED'')
   \<and> filter isUpdateBug (calls (verifyBug
          (demo (demo_bug ''ON_QA'') (Inr []) (Inr [\<lparr>Label_Name = ''qe-approved''\<rparr>]))
          demo_pkgs ''4.14.3'' ''4.14'' 7 [demo_pr] start)) =
       [UpdateBug_call 7 \<lparr>BugUpdate_Status = ''VERIFIED''\<rparr>]
   \<and> filter isUpdateBug (calls (VerifyBugs
          (demo (demo_bug ''ON_QA'') (Inr []) (Inr [\<lparr>Label_Name = ''qe-approved''\<rparr>]))
          demo_pkgs [500, 7] ''4.14.3'')) =
       [UpdateBug_call 7 \<lparr>BugUpdate_Status = ''VERIFIED''\<rparr>]"
proof -
  let ?c = "demo (demo_bug ''ON_QA'') (Inr []) (Inr [\<lparr>Label_Name = ''qe-approved''\<rparr>])"
  let ?M = "''Bugfix included in accepted release 4.14.3\<newline>All linked GitHub PRs have been approved by a QA contact; updating bug status to VERIFIED''"
  have fetched: "GetBug (bzClient ?c) 7 = Inr (demo_bug ''ON_QA'')"
    by (simp add: demo_def demo_bz_def demo_bug_def)
  have onqa: "Status (demo_bug ''ON_QA'') = ''ON_QA''"
    by (simp add: demo_bug_def)
  have target: "TargetRelease (demo_bug ''ON_QA'') = [''4.14.0'']"
    by (simp add: demo_bug_def)
  have split: "strings_Split ''4.14.0'' CHR ''.'' = [''4'', ''14'', ''0'']"
    by simp
  have release: "''4'' @ ''.'' @ ''14'' = ''4.14''"
    by simp
  have l: "GetIssueLabels (ghClient ?c) (org demo_pr) (repo demo_pr) (prNum demo_pr)
      = Inr [\<lparr>Label_Name = ''qe-approved''\<rparr>]"
    by (simp add: demo_def)
  have labels: "\<forall>extPR \<in> set [demo_pr]. \<exists>labels.
      GetIssueLabels (ghClient ?c) (org extPR) (repo extPR) (prNum extPR) = Inr labels"
    using l by simp
  have comments: "GetComments (bzClient ?c) 7 = Inr []"
    by (simp add: demo_def demo_bz_def)
  have d: "fst (decide ?c demo_pkgs ''4.14.3'' (demo_bug ''ON_QA'') [demo_pr] (issue (GetBug_call 7) start))
      = Some (True, ?M)"
    by (simp add: fst_decide verdict_def unlabeled_def labelErrs_def composeMessage_success
          demo_def demo_bug_def)
  have u: "filter isUpdateBug (calls (verifyBug ?c demo_pkgs ''4.14.3'' ''4.14'' 7 [demo_pr] start)) =
       [UpdateBug_call 7 \<lparr>BugUpdate_Status = ''VERIFIED''\<rparr>]"
    using release_onqa_success_iff_all_approved[OF fetched onqa target split release labels comments,
        of demo_pkgs "''4.14.3''" start] d
    by (auto simp add: start_def demo_bug_def)
  have w: "filter isUpdateBug (calls (VerifyBugs ?c demo_pkgs [500, 7] ''4.14.3'')) =
       [UpdateBug_call 7 \<lparr>BugUpdate_Status = ''VERIFIED''\<rparr>]"
    by (simp add: demo_run_approved)
  show ?thesis
    using fetched onqa target split l comments d u w by blast
qed

text \<open>
  C1 as stated fails: bug 7 is in \<open>ON_QA\<close>, every fetch succeeds and its one pull
  request is approved, but its target release is unset; line 62 leaves the iteration
  and the whole run issues neither a comment nor an update.
\<close>

theorem approved_bug_without_target_release_not_updated:
  "Status demo_bug_unset = ''ON_QA''
   \<and> GetBug (bzClient (demo demo_bug_unset (Inr []) (Inr [\<lparr>Label_Name = ''qe-approved''\<rparr>]))) 7
       = Inr demo_bug_unset
   \<and> GetExternalBugPRsOnBug (bzClient (demo demo_bug_unset (Inr []) (Inr [\<lparr>Label_Name = ''qe-approved''\<rparr>]))) 7
       = Inr [\<lparr>Type_URL = ''https://github.com/'', Org = ''org'', Repo = ''repo'', Num = 5\<rparr>,
              \<lparr>Type_URL = ''https://issues.example.org/'', Org = ''x'', Repo = ''y'', Num = 1\<rparr>]
   \<and> GetIssueLabels (ghClient (demo demo_bug_unset (Inr []) (Inr [\<lparr>Label_Name = ''qe-approved''\<rparr>])))
        ''org'' ''repo'' 5 = Inr [\<lparr>Label_Name = ''qe-approved''\<rparr>]
   \<and> GetComments (bzClient (demo demo_bug_unset (Inr []) (Inr [\<lparr>Label_Name = ''qe-approved''\<rparr>]))) 7 = Inr []
   \<and> VerifyBugs (demo demo_bug_unset (Inr []) (Inr [\<lparr>Label_Name = ''qe-approved''\<rparr>]))
        demo_pkgs [7] ''4.14.3'' =
       \<lparr>errs = [], calls = [GetExternalBugPRsOnBug_call 7, GetBug_call 7]\<rparr>"
  by (simp add: VerifyBugs_def getPRs_def verifyBug_def issue_def addErr_def
        demo_def demo_bz_def demo_bug_unset_def demo_pkgs_def)

end
